theory Spec2Isabelle
  imports Complex_Main "HOL-Library.Word"
begin

unbundle bit_operations_syntax

section \<open>Numbers\<close>

text \<open>
  The C type \<open>float\<close> is modelled by the real numbers, in exact arithmetic: rounding is
  outside the model. Two places where a float leaves the reals are modelled apart: the NaN
  that \<open>asinf\<close> returns for an argument outside its domain, and the overflow and underflow
  of the squared norm in \<open>cm_normalizeQuat\<close>, in a section of its own. The functions of
  \<open>math.h\<close> used by the sources are modelled by their mathematical definitions.
\<close>

type_synonym float = real

definition sinf :: "float \<Rightarrow> float" where
  "sinf a = sin a"

definition cosf :: "float \<Rightarrow> float" where
  "cosf a = cos a"

definition sqrtf :: "float \<Rightarrow> float" where
  "sqrtf a = sqrt a"

definition powf :: "float \<Rightarrow> float \<Rightarrow> float" where
  "powf a b = a powr b"

text \<open>
  \<open>asinf\<close> has a domain error outside \<open>[-1, 1]\<close> and returns NaN there: the value
  \<open>None\<close>.
\<close>

definition asinf :: "float \<Rightarrow> float option" where
  "asinf a = (if - 1 \<le> a \<and> a \<le> 1 then Some (arcsin a) else None)"

text \<open>
  The two-argument arc tangent of C: the angle of the point \<open>(b, a)\<close>, in \<open>(-pi, pi]\<close>.
  The reals have one zero, read as \<open>+0\<close>: an argument \<open>-0\<close>, which C tells from \<open>+0\<close> when
  the other argument is not positive, is outside the model.
\<close>

definition atan2f :: "float \<Rightarrow> float \<Rightarrow> float" where
  "atan2f a b =
     (if 0 < b then arctan (a / b)
      else if b < 0 then (if 0 \<le> a then arctan (a / b) + pi else arctan (a / b) - pi)
      else if 0 < a then pi / 2
      else if a < 0 then - (pi / 2)
      else 0)"

section \<open>camera\_math\_default.h\<close>

datatype CameraVec3 = Vec3 (vx: float) (vy: float) (vz: float)

datatype CameraQuat = Quat (qx: float) (qy: float) (qz: float) (qw: float)

definition cm_init_vec3 :: "float \<Rightarrow> float \<Rightarrow> float \<Rightarrow> CameraVec3" where
  "cm_init_vec3 x y z = Vec3 x y z"

definition cm_init_quat :: "float \<Rightarrow> float \<Rightarrow> float \<Rightarrow> float \<Rightarrow> CameraQuat" where
  "cm_init_quat x y z w = Quat x y z w"

definition cm_invert :: "CameraQuat \<Rightarrow> CameraQuat" where
  "cm_invert a = Quat (- qx a) (- qy a) (- qz a) (qw a)"

definition cm_mulQuat :: "CameraQuat \<Rightarrow> CameraQuat \<Rightarrow> CameraQuat" where
  "cm_mulQuat a b =
     (let ax = qx a; ay = qy a; az = qz a; aw = qw a;
          bx = qx b; by = qy b; bz = qz b; bw = qw b
      in cm_init_quat
           (aw * bx + ax * bw + ay * bz - az * by)
           (aw * by - ax * bz + ay * bw + az * bx)
           (aw * bz + ax * by - ay * bx + az * bw)
           (aw * bw - ax * bx - ay * by - az * bz))"

definition cm_mul :: "CameraVec3 \<Rightarrow> CameraQuat \<Rightarrow> CameraVec3" where
  "cm_mul v q =
     (let tmp0 = cm_invert q;
          qv = cm_init_quat (vx v) (vy v) (vz v) 0;
          tmp1 = cm_mulQuat tmp0 qv;
          result = cm_mulQuat tmp1 q
      in cm_init_vec3 (qx result) (qy result) (qz result))"

definition cm_add :: "CameraVec3 \<Rightarrow> CameraVec3 \<Rightarrow> CameraVec3" where
  "cm_add a b = Vec3 (vx a + vx b) (vy a + vy b) (vz a + vz b)"

definition cm_scale :: "CameraVec3 \<Rightarrow> float \<Rightarrow> CameraVec3" where
  "cm_scale a b = Vec3 (vx a * b) (vy a * b) (vz a * b)"

definition cm_cross :: "CameraVec3 \<Rightarrow> CameraVec3 \<Rightarrow> CameraVec3" where
  "cm_cross a b =
     cm_init_vec3
       (vy a * vz b - vz a * vy b)
       (vz a * vx b - vx a * vz b)
       (vx a * vy b - vy a * vx b)"

definition cm_min :: "float \<Rightarrow> float \<Rightarrow> float" where
  "cm_min a b = (if a < b then a else b)"

definition cm_max :: "float \<Rightarrow> float \<Rightarrow> float" where
  "cm_max a b = (if a > b then a else b)"

text \<open>
  A comparison with NaN is false, so both functions return their second argument when the
  first is NaN. The first argument is NaN in the calls that clamp the roll angle only, and
  there it is a difference whose subtrahend may be NaN.
\<close>

definition nan_minus :: "float \<Rightarrow> float option \<Rightarrow> float option" where
  "nan_minus a b = (case b of None \<Rightarrow> None | Some b' \<Rightarrow> Some (a - b'))"

definition cm_min_nan :: "float option \<Rightarrow> float \<Rightarrow> float" where
  "cm_min_nan a b = (case a of None \<Rightarrow> b | Some a' \<Rightarrow> cm_min a' b)"

definition cm_max_nan :: "float option \<Rightarrow> float \<Rightarrow> float" where
  "cm_max_nan a b = (case a of None \<Rightarrow> b | Some a' \<Rightarrow> cm_max a' b)"

definition cm_sqrt :: "float \<Rightarrow> float" where
  "cm_sqrt a = sqrtf a"

text \<open>
  The vector of Euler angles that \<open>cm_toEuler\<close> returns: a \<open>CameraVec3\<close> whose \<open>z\<close> is NaN
  when \<open>asinf\<close> has a domain error. It is the only vector of the model with such a
  component and has a type of its own.
\<close>

datatype EulerAngles = EulerAngles (ex: float) (ey: float) (ez: "float option")

definition cm_toEuler :: "CameraQuat \<Rightarrow> EulerAngles" where
  "cm_toEuler a =
     (let xx = qx a; yy = qy a; zz = qz a; ww = qw a;
          xsq = xx * xx; ysq = yy * yy; zsq = zz * zz
      in EulerAngles
           (atan2f (2 * (xx * ww - yy * zz)) (1 - 2 * (xsq + zsq)))
           (atan2f (2 * (yy * ww + xx * zz)) (1 - 2 * (ysq + zsq)))
           (asinf (2 * (xx * yy + zz * ww))))"

definition cm_fromAxisAngle :: "CameraVec3 \<Rightarrow> float \<Rightarrow> CameraQuat" where
  "cm_fromAxisAngle axis angle =
     (let ha = angle * 0.5; sa = sinf ha
      in cm_init_quat (vx axis * sa) (vy axis * sa) (vz axis * sa) (cosf ha))"

text \<open>
  The normalization in exact arithmetic. A later section models it once more with the range
  of float, where the squared norm can overflow or underflow.
\<close>

definition cm_normalizeQuat :: "CameraQuat \<Rightarrow> CameraQuat" where
  "cm_normalizeQuat a =
     (let norm = qx a * qx a + qy a * qy a + qz a * qz a + qw a * qw a
      in if 0 < norm
         then (let invNorm = powf norm (- 0.5)
               in Quat (qx a * invNorm) (qy a * invNorm) (qz a * invNorm) (qw a * invNorm))
         else cm_init_quat 0 0 0 1)"

definition cm_normalizeVec3 :: "CameraVec3 \<Rightarrow> CameraVec3" where
  "cm_normalizeVec3 a =
     (let invLen = 1 / sqrtf (vx a * vx a + vy a * vy a + vz a * vz a)
      in cm_scale a invLen)"

definition cm_negate :: "CameraVec3 \<Rightarrow> CameraVec3" where
  "cm_negate a = Vec3 (- vx a) (- vy a) (- vz a)"

text \<open>The sixteen floats written through the pointer \<open>_result\<close>, in index order.\<close>

definition cm_matrixFromQuat :: "CameraQuat \<Rightarrow> float list" where
  "cm_matrixFromQuat rotation =
     (let q1 = qx rotation; q2 = qy rotation; q3 = qz rotation; q4 = qw rotation;
          x2 = q1 + q1; y2 = q2 + q2; z2 = q3 + q3;
          x2x = x2 * q1; x2y = x2 * q2; x2z = x2 * q3; x2w = x2 * q4;
          y2y = y2 * q2; y2z = y2 * q3; y2w = y2 * q4;
          z2z = z2 * q3; z2w = z2 * q4
      in [1 - (y2y + z2z), x2y - z2w, x2z + y2w, 0,
          x2y + z2w, 1 - (x2x + z2z), y2z - x2w, 0,
          x2z - y2w, y2z + x2w, 1 - (x2x + y2y), 0,
          0, 0, 0, 1])"

section \<open>camera.h\<close>

definition CAMERA_WORLD_FORWARD :: CameraVec3 where
  "CAMERA_WORLD_FORWARD = Vec3 0 0 1"

definition CAMERA_WORLD_UP :: CameraVec3 where
  "CAMERA_WORLD_UP = Vec3 0 1 0"

definition CAMERA_WORLD_RIGHT :: CameraVec3 where
  "CAMERA_WORLD_RIGHT = Vec3 1 0 0"

definition CAMERA_MODE_DISABLE_ROLL :: "32 word" where
  "CAMERA_MODE_DISABLE_ROLL = 0x00000001"

definition CAMERA_MODE_MOVE_IN_WORLDPLANE :: "32 word" where
  "CAMERA_MODE_MOVE_IN_WORLDPLANE = 0x00000002"

definition CAMERA_MODE_CLAMP_PITCH_ANGLE :: "32 word" where
  "CAMERA_MODE_CLAMP_PITCH_ANGLE = 0x00000004"

definition CAMERA_MODE_CLAMP_YAW_ANGLE :: "32 word" where
  "CAMERA_MODE_CLAMP_YAW_ANGLE = 0x00000008"

definition CAMERA_MODE_CLAMP_ROLL_ANGLE :: "32 word" where
  "CAMERA_MODE_CLAMP_ROLL_ANGLE = 0x00000010"

definition CAMERA_MODE_FREE :: "32 word" where
  "CAMERA_MODE_FREE = 0"

definition CAMERA_MODE_FIRST_PERSON :: "32 word" where
  "CAMERA_MODE_FIRST_PERSON =
     0 OR CAMERA_MODE_DISABLE_ROLL OR CAMERA_MODE_MOVE_IN_WORLDPLANE
       OR CAMERA_MODE_CLAMP_PITCH_ANGLE"

definition CAMERA_MODE_THIRD_PERSON :: "32 word" where
  "CAMERA_MODE_THIRD_PERSON = CAMERA_MODE_FIRST_PERSON"

definition CAMERA_MODE_ORBITAL :: "32 word" where
  "CAMERA_MODE_ORBITAL = 0 OR CAMERA_MODE_DISABLE_ROLL OR CAMERA_MODE_CLAMP_PITCH_ANGLE"

record Camera =
  target_position :: CameraVec3
  target_distance :: float
  orientation :: CameraQuat
  mode :: "32 word"
  movement_accumulator :: CameraVec3
  rotation_accumulator :: CameraVec3
  minPitch :: float
  maxPitch :: float
  minYaw :: float
  maxYaw :: float
  minRoll :: float
  maxRoll :: float

definition camera_init :: Camera where
  "camera_init =
     \<lparr> target_position = cm_init_vec3 0 0 0,
       target_distance = 0,
       orientation = cm_init_quat 0 0 0 0,
       mode = CAMERA_MODE_FREE,
       movement_accumulator = cm_init_vec3 0 0 0,
       rotation_accumulator = cm_init_vec3 0 0 0,
       minPitch = 0,
       maxPitch = 0,
       minYaw = 0,
       maxYaw = 0,
       minRoll = 0,
       maxRoll = 0 \<rparr>"

definition camera_forward :: "Camera \<Rightarrow> CameraVec3" where
  "camera_forward cam = cm_mul CAMERA_WORLD_FORWARD (cm_invert (orientation cam))"

definition camera_up :: "Camera \<Rightarrow> CameraVec3" where
  "camera_up cam = cm_mul CAMERA_WORLD_UP (cm_invert (orientation cam))"

definition camera_right :: "Camera \<Rightarrow> CameraVec3" where
  "camera_right cam = cm_mul CAMERA_WORLD_RIGHT (cm_invert (orientation cam))"

definition camera_eye :: "Camera \<Rightarrow> CameraVec3" where
  "camera_eye cam =
     cm_add (target_position cam) (cm_scale (camera_forward cam) (- target_distance cam))"

definition camera_move :: "Camera \<Rightarrow> CameraVec3 \<Rightarrow> Camera" where
  "camera_move cam offset =
     cam\<lparr>movement_accumulator := cm_add (movement_accumulator cam) offset\<rparr>"

definition camera_rotate :: "Camera \<Rightarrow> CameraVec3 \<Rightarrow> Camera" where
  "camera_rotate cam angles =
     cam\<lparr>rotation_accumulator := cm_add (rotation_accumulator cam) angles\<rparr>"

subsection \<open>camera\_view\_matrix\<close>

text \<open>
  The function is split at the comments of its body: clamp angles, update orientation,
  update target position, generate view matrix. Assignments to one component of a vector
  field are written as an update of that field.
\<close>

definition set_vx :: "CameraVec3 \<Rightarrow> float \<Rightarrow> CameraVec3" where
  "set_vx v a = Vec3 a (vy v) (vz v)"

definition set_vy :: "CameraVec3 \<Rightarrow> float \<Rightarrow> CameraVec3" where
  "set_vy v a = Vec3 (vx v) a (vz v)"

definition set_vz :: "CameraVec3 \<Rightarrow> float \<Rightarrow> CameraVec3" where
  "set_vz v a = Vec3 (vx v) (vy v) a"

definition clamp_pitch :: "EulerAngles \<Rightarrow> Camera \<Rightarrow> Camera" where
  "clamp_pitch angles cam =
     (if mode cam AND CAMERA_MODE_CLAMP_PITCH_ANGLE \<noteq> 0
      then (let c1 = cam\<lparr>rotation_accumulator := set_vx (rotation_accumulator cam)
                         (cm_max (minPitch cam - ex angles) (vx (rotation_accumulator cam)))\<rparr>
            in c1\<lparr>rotation_accumulator := set_vx (rotation_accumulator c1)
                    (cm_min (maxPitch c1 - ex angles) (vx (rotation_accumulator c1)))\<rparr>)
      else cam)"

definition clamp_yaw :: "EulerAngles \<Rightarrow> Camera \<Rightarrow> Camera" where
  "clamp_yaw angles cam =
     (if mode cam AND CAMERA_MODE_CLAMP_YAW_ANGLE \<noteq> 0
      then (let c1 = cam\<lparr>rotation_accumulator := set_vy (rotation_accumulator cam)
                         (cm_max (minYaw cam - ey angles) (vy (rotation_accumulator cam)))\<rparr>
            in c1\<lparr>rotation_accumulator := set_vy (rotation_accumulator c1)
                    (cm_min (maxYaw c1 - ey angles) (vy (rotation_accumulator c1)))\<rparr>)
      else cam)"

definition clamp_roll :: "EulerAngles \<Rightarrow> Camera \<Rightarrow> Camera" where
  "clamp_roll angles cam =
     (if mode cam AND CAMERA_MODE_CLAMP_ROLL_ANGLE \<noteq> 0
      then (let c1 = cam\<lparr>rotation_accumulator := set_vz (rotation_accumulator cam)
                         (cm_max_nan (nan_minus (minRoll cam) (ez angles)) (vz (rotation_accumulator cam)))\<rparr>
            in c1\<lparr>rotation_accumulator := set_vz (rotation_accumulator c1)
                    (cm_min_nan (nan_minus (maxRoll c1) (ez angles)) (vz (rotation_accumulator c1)))\<rparr>)
      else cam)"

definition clamp_angles :: "Camera \<Rightarrow> Camera" where
  "clamp_angles cam =
     (if mode cam AND (CAMERA_MODE_CLAMP_PITCH_ANGLE OR CAMERA_MODE_CLAMP_YAW_ANGLE
                        OR CAMERA_MODE_CLAMP_ROLL_ANGLE) \<noteq> 0
      then (let angles = cm_toEuler (orientation cam)
            in clamp_roll angles (clamp_yaw angles (clamp_pitch angles cam)))
      else cam)"

text \<open>The orientation after the products of lines 355 to 371, before line 373 normalizes it.\<close>

definition compose_orientation :: "Camera \<Rightarrow> CameraQuat" where
  "compose_orientation cam =
     (let pitch = cm_fromAxisAngle CAMERA_WORLD_RIGHT (vx (rotation_accumulator cam));
          yaw = cm_fromAxisAngle CAMERA_WORLD_UP (vy (rotation_accumulator cam))
      in if mode cam AND CAMERA_MODE_DISABLE_ROLL \<noteq> 0
         then (let o1 = cm_mulQuat (orientation cam) pitch
               in cm_mulQuat yaw o1)
         else (let roll = cm_fromAxisAngle CAMERA_WORLD_FORWARD (vz (rotation_accumulator cam));
                   o1 = cm_mulQuat (orientation cam) pitch;
                   o2 = cm_mulQuat o1 yaw
               in cm_mulQuat o2 roll))"

definition update_orientation :: "Camera \<Rightarrow> Camera" where
  "update_orientation cam =
     (let c1 = cam\<lparr>orientation := compose_orientation cam\<rparr>;
          c2 = c1\<lparr>orientation := cm_normalizeQuat (orientation c1)\<rparr>;
          c3 = c2\<lparr>rotation_accumulator := set_vx (rotation_accumulator c2) 0\<rparr>;
          c4 = c3\<lparr>rotation_accumulator := set_vy (rotation_accumulator c3) 0\<rparr>
      in c4\<lparr>rotation_accumulator := set_vz (rotation_accumulator c4) 0\<rparr>)"

text \<open>
  The local variables \<open>forward\<close>, \<open>up\<close> and \<open>right\<close> of lines 383 to 416, as a triple in
  that order: \<open>worldplane_fallback\<close> is the chain of special cases, \<open>movement_basis\<close> the
  whole computation up to the scaling.
\<close>

definition epsilon :: float where
  "epsilon = 0.0001"

definition worldplane_fallback ::
  "CameraVec3 \<times> CameraVec3 \<times> CameraVec3 \<Rightarrow> CameraVec3 \<times> CameraVec3 \<times> CameraVec3" where
  "worldplane_fallback b =
     (case b of (forward, up, right) \<Rightarrow>
        if vy forward > 1 - epsilon then (cm_negate up, up, right)
        else if vy forward < - 1 + epsilon then (up, up, right)
        else if vy right > 1 - epsilon then (forward, up, up)
        else if vy right < - 1 + epsilon then (forward, up, cm_negate up)
        else (forward, up, right))"

definition movement_basis :: "Camera \<Rightarrow> CameraVec3 \<times> CameraVec3 \<times> CameraVec3" where
  "movement_basis cam =
     (let b = (camera_forward cam, camera_up cam, camera_right cam)
      in if mode cam AND CAMERA_MODE_MOVE_IN_WORLDPLANE \<noteq> 0
         then (case worldplane_fallback b of (forward, up, right) \<Rightarrow>
                 (cm_normalizeVec3 (set_vy forward 0),
                  CAMERA_WORLD_UP,
                  cm_normalizeVec3 (set_vy right 0)))
         else b)"

definition update_target_position :: "Camera \<Rightarrow> Camera" where
  "update_target_position cam =
     (case movement_basis cam of (forward0, up0, right0) \<Rightarrow>
        (let forward = cm_scale forward0 (vx (movement_accumulator cam));
             up = cm_scale up0 (vy (movement_accumulator cam));
             right = cm_scale right0 (vz (movement_accumulator cam));
             c1 = cam\<lparr>target_position := cm_add (target_position cam) forward\<rparr>;
             c2 = c1\<lparr>target_position := cm_add (target_position c1) up\<rparr>;
             c3 = c2\<lparr>target_position := cm_add (target_position c2) right\<rparr>;
             c4 = c3\<lparr>movement_accumulator := set_vx (movement_accumulator c3) 0\<rparr>;
             c5 = c4\<lparr>movement_accumulator := set_vy (movement_accumulator c4) 0\<rparr>
         in c5\<lparr>movement_accumulator := set_vz (movement_accumulator c5) 0\<rparr>))"

definition generate_view_matrix :: "Camera \<Rightarrow> float list" where
  "generate_view_matrix cam =
     (let m = cm_matrixFromQuat (orientation cam);
          translation0 = cm_negate (camera_eye cam);
          translation = cm_mul translation0 (orientation cam)
      in m[12 := vx translation, 13 := vy translation, 14 := vz translation])"

text \<open>The camera after the call, and the matrix written to \<open>_out_matrix\<close>.\<close>

definition camera_view_matrix :: "Camera \<Rightarrow> Camera \<times> float list" where
  "camera_view_matrix cam =
     (let c1 = clamp_angles cam;
          c2 = update_orientation c1;
          c3 = update_target_position c2
      in (c3, generate_view_matrix c3))"

text \<open>Calls of \<open>camera_move\<close> and \<open>camera_rotate\<close> issued one after the other.\<close>

datatype command = Move CameraVec3 | Rotate CameraVec3

fun run_command :: "Camera \<Rightarrow> command \<Rightarrow> Camera" where
  "run_command cam (Move offset) = camera_move cam offset"
| "run_command cam (Rotate angles) = camera_rotate cam angles"

fun run_commands :: "Camera \<Rightarrow> command list \<Rightarrow> Camera" where
  "run_commands cam [] = cam"
| "run_commands cam (c # cs) = run_commands (run_command cam c) cs"

section \<open>The normalization in the range of float\<close>

text \<open>
  In \<open>cm_normalizeQuat\<close> the squared norm can leave the range of \<open>float\<close> although the
  quaternion does not: it overflows to infinity, or it falls below the smallest normal
  number, where a float keeps a multiple of \<open>2\<^sup>-\<^sup>1\<^sup>4\<^sup>9\<close> only. The function is therefore
  modelled a second time, on floats with a range: a finite number, an infinity or NaN. Each
  arithmetic result passes through \<open>fl\<close>, which gives the infinity of its sign to a number
  that rounds beyond \<open>FLT_MAX\<close> (from \<open>2\<^sup>1\<^sup>2\<^sup>8 - 2\<^sup>1\<^sup>0\<^sup>3\<close> on) and \<open>FLT_MAX\<close> to a number
  between the two, rounds a number below \<open>FLT_MIN\<close> to the nearest multiple of \<open>2\<^sup>-\<^sup>1\<^sup>4\<^sup>9\<close>
  (ties to even) and leaves every other number as it is: the rounding of the significand
  of a normal number is not modelled, and neither is the sign of zero. The components of
  the quaternion passed in are finite.
\<close>

datatype f32 = Fin real | PInf | NInf | NaN

definition FLT_MAX :: real where
  "FLT_MAX = (2 - 1 / 2 ^ 23) * 2 ^ 127"

definition FLT_MIN :: real where
  "FLT_MIN = 1 / 2 ^ 126"

definition round_even :: "real \<Rightarrow> int" where
  "round_even t =
     (let f = \<lfloor>t\<rfloor>; d = t - of_int f
      in if d < 1 / 2 then f else if 1 / 2 < d then f + 1 else if even f then f else f + 1)"

definition subnormal :: "real \<Rightarrow> real" where
  "subnormal r = of_int (round_even (r * 2 ^ 149)) / 2 ^ 149"

definition fl :: "real \<Rightarrow> f32" where
  "fl r =
     (if 2 ^ 128 - 2 ^ 103 \<le> \<bar>r\<bar> then (if 0 < r then PInf else NInf)
      else if FLT_MAX < \<bar>r\<bar> then Fin (sgn r * FLT_MAX)
      else if \<bar>r\<bar> < FLT_MIN then Fin (subnormal r)
      else Fin r)"

fun fmul :: "f32 \<Rightarrow> f32 \<Rightarrow> f32" where
  "fmul (Fin a) (Fin b) = fl (a * b)"
| "fmul NaN b = NaN"
| "fmul a NaN = NaN"
| "fmul (Fin a) PInf = (if a = 0 then NaN else if 0 < a then PInf else NInf)"
| "fmul (Fin a) NInf = (if a = 0 then NaN else if 0 < a then NInf else PInf)"
| "fmul PInf (Fin b) = (if b = 0 then NaN else if 0 < b then PInf else NInf)"
| "fmul NInf (Fin b) = (if b = 0 then NaN else if 0 < b then NInf else PInf)"
| "fmul PInf PInf = PInf"
| "fmul NInf NInf = PInf"
| "fmul PInf NInf = NInf"
| "fmul NInf PInf = NInf"

fun fadd :: "f32 \<Rightarrow> f32 \<Rightarrow> f32" where
  "fadd (Fin a) (Fin b) = fl (a + b)"
| "fadd NaN b = NaN"
| "fadd a NaN = NaN"
| "fadd PInf NInf = NaN"
| "fadd NInf PInf = NaN"
| "fadd PInf b = PInf"
| "fadd a PInf = PInf"
| "fadd NInf b = NInf"
| "fadd a NInf = NInf"

text \<open>The comparison \<open>a < b\<close> of C: false when an argument is NaN.\<close>

fun fless :: "f32 \<Rightarrow> f32 \<Rightarrow> bool" where
  "fless (Fin a) (Fin b) = (a < b)"
| "fless NaN b = False"
| "fless a NaN = False"
| "fless a NInf = False"
| "fless PInf b = False"
| "fless NInf b = True"
| "fless a PInf = True"

text \<open>
  The call \<open>powf(a, -0.5f)\<close>: zero for an infinite base, a pole error with the result
  \<open>+infinity\<close> for the base zero, a domain error with the result NaN for a negative base.
\<close>

fun powf_minus_half :: "f32 \<Rightarrow> f32" where
  "powf_minus_half (Fin a) =
     (if 0 < a then fl (a powr (- 0.5)) else if a = 0 then PInf else NaN)"
| "powf_minus_half PInf = Fin 0"
| "powf_minus_half NInf = Fin 0"
| "powf_minus_half NaN = NaN"

datatype QuatF = QuatF (fqx: f32) (fqy: f32) (fqz: f32) (fqw: f32)

definition fin_quat :: "CameraQuat \<Rightarrow> QuatF" where
  "fin_quat q = QuatF (Fin (qx q)) (Fin (qy q)) (Fin (qz q)) (Fin (qw q))"

definition cm_normalizeQuat_f32 :: "CameraQuat \<Rightarrow> QuatF" where
  "cm_normalizeQuat_f32 a =
     (let x = Fin (qx a); y = Fin (qy a); z = Fin (qz a); w = Fin (qw a);
          norm = fadd (fadd (fadd (fmul x x) (fmul y y)) (fmul z z)) (fmul w w)
      in if fless (Fin 0) norm
         then (let invNorm = powf_minus_half norm
               in QuatF (fmul x invNorm) (fmul y invNorm) (fmul z invNorm) (fmul w invNorm))
         else fin_quat (cm_init_quat 0 0 0 1))"

text \<open>
  The orientation that line 373 of \<open>camera_view_matrix\<close> stores, with the normalization in
  the range of float.
\<close>

definition resolved_orientation_f32 :: "Camera \<Rightarrow> QuatF" where
  "resolved_orientation_f32 cam = cm_normalizeQuat_f32 (compose_orientation (clamp_angles cam))"

section \<open>Notions of the specification\<close>

text \<open>
  The squared norm and the length of a quaternion, and a quaternion scaled by a number.
\<close>

definition qnorm2 :: "CameraQuat \<Rightarrow> real" where
  "qnorm2 a = qx a * qx a + qy a * qy a + qz a * qz a + qw a * qw a"

definition quat_length :: "CameraQuat \<Rightarrow> real" where
  "quat_length a = sqrt (qnorm2 a)"

definition quat_scale :: "CameraQuat \<Rightarrow> real \<Rightarrow> CameraQuat" where
  "quat_scale a s = Quat (qx a * s) (qy a * s) (qz a * s) (qw a * s)"

text \<open>
  The squared norm as \<open>cm_normalizeQuat_f32\<close> computes it. A component is in the safe range
  when it is zero or its magnitude lies between \<open>2\<^sup>-\<^sup>6\<^sup>3\<close> and \<open>2\<^sup>6\<^sup>2\<close>, and a quaternion when
  all its components are and one of them is not zero: then no intermediate result of the
  normalization overflows or falls below the smallest normal number. A float that is
  not negative is an infinity, zero or a finite number of at least \<open>2\<^sup>-\<^sup>1\<^sup>4\<^sup>9\<close>.
\<close>

definition fnorm2 :: "CameraQuat \<Rightarrow> f32" where
  "fnorm2 a =
     fadd (fadd (fadd (fmul (Fin (qx a)) (Fin (qx a))) (fmul (Fin (qy a)) (Fin (qy a))))
             (fmul (Fin (qz a)) (Fin (qz a))))
       (fmul (Fin (qw a)) (Fin (qw a)))"

definition in_safe_range :: "real \<Rightarrow> bool" where
  "in_safe_range c \<longleftrightarrow> c = 0 \<or> (1 / 2 ^ 63 \<le> \<bar>c\<bar> \<and> \<bar>c\<bar> \<le> 2 ^ 62)"

definition safe_quat :: "CameraQuat \<Rightarrow> bool" where
  "safe_quat a \<longleftrightarrow>
     in_safe_range (qx a) \<and> in_safe_range (qy a) \<and> in_safe_range (qz a) \<and>
     in_safe_range (qw a) \<and> 0 < qnorm2 a"


text \<open>
  The Hamilton product in scalar and vector form: for \<open>a = (s, v)\<close> and \<open>b = (t, w)\<close> it is
  \<open>(s t - v . w, s w + t v + v x w)\<close>. The axis-angle quaternion is
  \<open>(axis sin (theta / 2), cos (theta / 2))\<close>.
\<close>

definition dot3 :: "CameraVec3 \<Rightarrow> CameraVec3 \<Rightarrow> real" where
  "dot3 a b = vx a * vx b + vy a * vy b + vz a * vz b"

definition quat_vector :: "CameraQuat \<Rightarrow> CameraVec3" where
  "quat_vector a = Vec3 (qx a) (qy a) (qz a)"

definition quat_of :: "CameraVec3 \<Rightarrow> real \<Rightarrow> CameraQuat" where
  "quat_of v s = Quat (vx v) (vy v) (vz v) s"

definition hamilton :: "CameraQuat \<Rightarrow> CameraQuat \<Rightarrow> CameraQuat" where
  "hamilton a b =
     quat_of
       (cm_add (cm_add (cm_scale (quat_vector b) (qw a)) (cm_scale (quat_vector a) (qw b)))
          (cm_cross (quat_vector a) (quat_vector b)))
       (qw a * qw b - dot3 (quat_vector a) (quat_vector b))"

definition axis_angle :: "CameraVec3 \<Rightarrow> real \<Rightarrow> CameraQuat" where
  "axis_angle axis theta = quat_of (cm_scale axis (sin (theta / 2))) (cos (theta / 2))"

text \<open>
  The delta quaternions of one \<open>camera_view_matrix\<close> call: axis-angle quaternions over
  the world right, up and forward axes, from the rotation accumulator as the clamping
  step leaves it.
\<close>

definition pitch_delta :: "Camera \<Rightarrow> CameraQuat" where
  "pitch_delta cam = axis_angle (Vec3 1 0 0) (vx (rotation_accumulator (clamp_angles cam)))"

definition yaw_delta :: "Camera \<Rightarrow> CameraQuat" where
  "yaw_delta cam = axis_angle (Vec3 0 1 0) (vy (rotation_accumulator (clamp_angles cam)))"

definition roll_delta :: "Camera \<Rightarrow> CameraQuat" where
  "roll_delta cam = axis_angle (Vec3 0 0 1) (vz (rotation_accumulator (clamp_angles cam)))"



text \<open>
  A vector in the world plane of length one, and the scenario of a pure forward move
  followed by a resolution.
\<close>

definition horizontal_unit :: "CameraVec3 \<Rightarrow> bool" where
  "horizontal_unit v \<longleftrightarrow> vy v = 0 \<and> vx v * vx v + vz v * vz v = 1"

definition move_forward_and_resolve :: "Camera \<Rightarrow> Camera" where
  "move_forward_and_resolve cam = fst (camera_view_matrix (camera_move cam (Vec3 1 0 0)))"

subsection \<open>Example cameras\<close>

text \<open>
  A level camera with half a turn of pitch and of yaw pending; a camera with all three
  clamps active whose Euler angles are \<open>(0, pi / 2, pi / 2)\<close>; a camera looking straight
  down with a clamped pitch; a camera with a clamped roll
  whose orientation has no Euler roll; a level camera whose pitch is limited to
  \<open>[0, pi / 2]\<close>, with a pitch of 5 and half a turn of yaw pending; a level camera without
  roll; a camera looking straight down that moves in the world plane; a camera whose pitch
  is limited to a quarter turn up and down.
\<close>

definition half_turns :: "32 word \<Rightarrow> Camera" where
  "half_turns m = camera_init\<lparr>orientation := Quat 0 0 0 1, mode := m,
      rotation_accumulator := Vec3 pi pi 0\<rparr>"




definition huge_camera :: Camera where
  "huge_camera = camera_init\<lparr>orientation := Quat (10 ^ 20) 0 0 0\<rparr>"

definition level_camera :: Camera where
  "level_camera = camera_init\<lparr>orientation := Quat 0 0 0 1\<rparr>"


definition level_no_roll :: Camera where
  "level_no_roll = camera_init\<lparr>orientation := Quat 0 0 0 1, mode := CAMERA_MODE_DISABLE_ROLL\<rparr>"

definition looking_down :: Camera where
  "looking_down = camera_init\<lparr>orientation := Quat (sqrt 2 / 2) 0 0 (sqrt 2 / 2),
      mode := CAMERA_MODE_MOVE_IN_WORLDPLANE\<rparr>"

definition pitch_limited :: Camera where
  "pitch_limited = camera_init\<lparr>orientation := Quat 0 0 0 1,
      mode := CAMERA_MODE_CLAMP_PITCH_ANGLE,
      rotation_accumulator := Vec3 5 0 0,
      minPitch := - (pi / 2), maxPitch := pi / 2\<rparr>"

section \<open>Properties\<close>

lemmas cm_simps = cm_init_vec3_def cm_init_quat_def cm_invert_def cm_mulQuat_def cm_mul_def
  cm_add_def cm_scale_def cm_negate_def

lemma qnorm2_nonneg: "0 \<le> qnorm2 a"
  by (simp add: qnorm2_def)

lemma cm_normalizeQuat_zero: "qnorm2 a \<le> 0 \<Longrightarrow> cm_normalizeQuat a = Quat 0 0 0 1"
  by (simp add: cm_normalizeQuat_def qnorm2_def cm_init_quat_def Let_def)

lemma powf_inv_sqrt: "0 < n \<Longrightarrow> powf n (- 0.5) = 1 / sqrt n"
proof -
  assume n: "0 < n"
  have e: "(- 0.5 :: real) = - (1 / 2)" by simp
  have "n powr (- (1 / 2)) = inverse (n powr (1 / 2))"
    by (rule powr_minus)
  also have "n powr (1 / 2) = sqrt n"
    using n by (simp only: powr_half_sqrt less_imp_le)
  finally show ?thesis
    unfolding powf_def e by (simp only: inverse_eq_divide)
qed

lemma cm_normalizeQuat_pos:
  "0 < qnorm2 a \<Longrightarrow> cm_normalizeQuat a = quat_scale a (1 / sqrt (qnorm2 a))"
  using powf_inv_sqrt [of "qnorm2 a"]
  by (simp add: cm_normalizeQuat_def qnorm2_def quat_scale_def Let_def)

lemma qnorm2_quat_scale: "qnorm2 (quat_scale a s) = qnorm2 a * (s * s)"
  by (simp add: qnorm2_def quat_scale_def algebra_simps)

lemma qnorm2_normalize: "qnorm2 (cm_normalizeQuat a) = 1"
proof (cases "0 < qnorm2 a")
  case True
  then have "sqrt (qnorm2 a) * sqrt (qnorm2 a) = qnorm2 a" by simp
  then show ?thesis using True
    by (simp add: cm_normalizeQuat_pos qnorm2_quat_scale)
next
  case False
  then have "qnorm2 a \<le> 0" by simp
  then show ?thesis by (simp add: cm_normalizeQuat_zero qnorm2_def)
qed

lemma cm_normalizeQuat_unit: "qnorm2 a = 1 \<Longrightarrow> cm_normalizeQuat a = a"
  by (cases a) (simp add: cm_normalizeQuat_pos quat_scale_def)

lemma qnorm2_mulQuat: "qnorm2 (cm_mulQuat a b) = qnorm2 a * qnorm2 b"
  by (simp add: qnorm2_def cm_simps Let_def algebra_simps)

lemma cm_mulQuat_assoc: "cm_mulQuat (cm_mulQuat a b) c = cm_mulQuat a (cm_mulQuat b c)"
  by (simp add: cm_simps Let_def algebra_simps)

lemma cm_mulQuat_id_right: "cm_mulQuat a (Quat 0 0 0 1) = a"
  by (cases a) (simp add: cm_simps Let_def)

lemma cm_mulQuat_id_left: "cm_mulQuat (Quat 0 0 0 1) a = a"
  by (cases a) (simp add: cm_simps Let_def)

lemma cm_mulQuat_zero_left: "cm_mulQuat (Quat 0 0 0 0) a = Quat 0 0 0 0"
  by (simp add: cm_simps Let_def)

lemma cm_mulQuat_zero_right: "cm_mulQuat a (Quat 0 0 0 0) = Quat 0 0 0 0"
  by (simp add: cm_simps Let_def)

lemma qnorm2_fromAxisAngle:
  "vx axis * vx axis + vy axis * vy axis + vz axis * vz axis = 1 \<Longrightarrow>
   qnorm2 (cm_fromAxisAngle axis angle) = 1"
proof -
  assume u: "vx axis * vx axis + vy axis * vy axis + vz axis * vz axis = 1"
  let ?s = "sin (angle * 0.5)" and ?c = "cos (angle * 0.5)"
  have "qnorm2 (cm_fromAxisAngle axis angle) =
        (vx axis * vx axis + vy axis * vy axis + vz axis * vz axis) * (?s * ?s) + ?c * ?c"
    by (simp add: qnorm2_def cm_fromAxisAngle_def cm_simps sinf_def cosf_def Let_def algebra_simps)
  also have "\<dots> = ?s\<^sup>2 + ?c\<^sup>2" using u by (simp add: power2_eq_square)
  finally show ?thesis by simp
qed

lemma cm_fromAxisAngle_zero: "cm_fromAxisAngle axis 0 = Quat 0 0 0 1"
  by (simp add: cm_fromAxisAngle_def cm_simps sinf_def cosf_def)

lemma set_v_simps:
  "set_vx (Vec3 a b c) d = Vec3 d b c"
  "set_vy (Vec3 a b c) d = Vec3 a d c"
  "set_vz (Vec3 a b c) d = Vec3 a b d"
  by (simp_all add: set_vx_def set_vy_def set_vz_def)

lemma clamp_pitch_frame: "\<exists>r. clamp_pitch an cam = cam\<lparr>rotation_accumulator := r\<rparr>"
proof (cases "mode cam AND CAMERA_MODE_CLAMP_PITCH_ANGLE \<noteq> 0")
  case True
  then show ?thesis by (auto simp add: clamp_pitch_def Let_def)
next
  case False
  then have "clamp_pitch an cam = cam\<lparr>rotation_accumulator := rotation_accumulator cam\<rparr>"
    by (simp add: clamp_pitch_def)
  then show ?thesis ..
qed

lemma clamp_yaw_frame: "\<exists>r. clamp_yaw an cam = cam\<lparr>rotation_accumulator := r\<rparr>"
proof (cases "mode cam AND CAMERA_MODE_CLAMP_YAW_ANGLE \<noteq> 0")
  case True
  then show ?thesis by (auto simp add: clamp_yaw_def Let_def)
next
  case False
  then have "clamp_yaw an cam = cam\<lparr>rotation_accumulator := rotation_accumulator cam\<rparr>"
    by (simp add: clamp_yaw_def)
  then show ?thesis ..
qed

lemma clamp_roll_frame: "\<exists>r. clamp_roll an cam = cam\<lparr>rotation_accumulator := r\<rparr>"
proof (cases "mode cam AND CAMERA_MODE_CLAMP_ROLL_ANGLE \<noteq> 0")
  case True
  then show ?thesis by (auto simp add: clamp_roll_def Let_def)
next
  case False
  then have "clamp_roll an cam = cam\<lparr>rotation_accumulator := rotation_accumulator cam\<rparr>"
    by (simp add: clamp_roll_def)
  then show ?thesis ..
qed

lemma clamp_angles_frame:
  "clamp_angles cam = cam\<lparr>rotation_accumulator := rotation_accumulator (clamp_angles cam)\<rparr>"
proof (cases "mode cam AND (CAMERA_MODE_CLAMP_PITCH_ANGLE OR CAMERA_MODE_CLAMP_YAW_ANGLE
                        OR CAMERA_MODE_CLAMP_ROLL_ANGLE) \<noteq> 0")
  case False
  then show ?thesis by (simp add: clamp_angles_def)
next
  case True
  let ?an = "cm_toEuler (orientation cam)"
  obtain r1 where r1: "clamp_pitch ?an cam = cam\<lparr>rotation_accumulator := r1\<rparr>"
    using clamp_pitch_frame by blast
  obtain r2 where r2: "clamp_yaw ?an (cam\<lparr>rotation_accumulator := r1\<rparr>) =
      cam\<lparr>rotation_accumulator := r1, rotation_accumulator := r2\<rparr>"
    using clamp_yaw_frame by blast
  obtain r3 where r3: "clamp_roll ?an (cam\<lparr>rotation_accumulator := r2\<rparr>) =
      cam\<lparr>rotation_accumulator := r2, rotation_accumulator := r3\<rparr>"
    using clamp_roll_frame by blast
  have "clamp_angles cam = cam\<lparr>rotation_accumulator := r3\<rparr>"
    using True r2 r3 by (simp add: clamp_angles_def Let_def r1)
  then show ?thesis by simp
qed

lemma clamp_angles_orientation: "orientation (clamp_angles cam) = orientation cam"
  by (subst clamp_angles_frame) simp

lemma clamp_angles_mode: "mode (clamp_angles cam) = mode cam"
  by (subst clamp_angles_frame) simp

lemma update_orientation_eq:
  "update_orientation cam =
     cam\<lparr>orientation := cm_normalizeQuat (compose_orientation cam),
         rotation_accumulator := Vec3 0 0 0\<rparr>"
  by (simp add: update_orientation_def Let_def set_vx_def set_vy_def set_vz_def)

lemma update_target_position_eq:
  "update_target_position cam =
     cam\<lparr>target_position := target_position (update_target_position cam),
         movement_accumulator := Vec3 0 0 0\<rparr>"
  by (simp add: update_target_position_def Let_def set_vx_def set_vy_def set_vz_def
      split: prod.splits)

lemma camera_view_matrix_orientation:
  "orientation (fst (camera_view_matrix cam)) =
     cm_normalizeQuat (compose_orientation (clamp_angles cam))"
  by (subst camera_view_matrix_def, simp add: Let_def, subst update_target_position_eq)
     (simp add: update_orientation_eq)

text \<open>
  Claim C8. After \<open>camera_view_matrix\<close> both accumulators are the zero vector, and the
  camera differs from the one passed in at most in \<open>orientation\<close>, \<open>target_position\<close>
  and the two accumulators: every other field keeps its value.
\<close>

theorem camera_view_matrix_frame:
  "fst (camera_view_matrix cam) =
     cam\<lparr>target_position := target_position (fst (camera_view_matrix cam)),
         orientation := orientation (fst (camera_view_matrix cam)),
         movement_accumulator := Vec3 0 0 0,
         rotation_accumulator := Vec3 0 0 0\<rparr>"
proof -
  obtain r where c1: "clamp_angles cam = cam\<lparr>rotation_accumulator := r\<rparr>"
    using clamp_angles_frame by blast
  define q where "q = cm_normalizeQuat (compose_orientation (clamp_angles cam))"
  have c2: "update_orientation (clamp_angles cam) =
      cam\<lparr>orientation := q, rotation_accumulator := Vec3 0 0 0\<rparr>"
    by (subst update_orientation_eq) (simp add: q_def c1)
  define t where "t = target_position (update_target_position (update_orientation (clamp_angles cam)))"
  have "update_target_position (update_orientation (clamp_angles cam)) =
      (update_orientation (clamp_angles cam))\<lparr>target_position := t,
         movement_accumulator := Vec3 0 0 0\<rparr>"
    unfolding t_def by (rule update_target_position_eq)
  then have c3: "fst (camera_view_matrix cam) =
      cam\<lparr>target_position := t, orientation := q, movement_accumulator := Vec3 0 0 0,
          rotation_accumulator := Vec3 0 0 0\<rparr>"
    by (simp add: camera_view_matrix_def Let_def c2)
  have "target_position (fst (camera_view_matrix cam)) = t"
    and "orientation (fst (camera_view_matrix cam)) = q"
    by (simp_all add: c3)
  then show ?thesis using c3 by simp
qed

text \<open>
  Claim C1. The claim asks for the identity quaternion \<open>(0, 0, 0, 1)\<close> as the initial
  orientation. \<open>camera_init\<close> stores the zero quaternion \<open>(0, 0, 0, 0)\<close> instead, so
  that \<open>camera_forward\<close>, documented as returning a normalized direction, returns the zero
  vector for a fresh camera.
\<close>

theorem camera_init_orientation_zero:
  "orientation camera_init = cm_init_quat 0 0 0 0 \<and>
   orientation camera_init \<noteq> cm_init_quat 0 0 0 1 \<and>
   camera_forward camera_init = Vec3 0 0 0"
  by (simp add: camera_init_def camera_forward_def CAMERA_WORLD_FORWARD_def cm_simps)

text \<open>
  The other fields of a fresh camera are as the initializer lists them.
\<close>

theorem camera_init_other_fields:
  "target_position camera_init = Vec3 0 0 0 \<and> target_distance camera_init = 0 \<and>
   movement_accumulator camera_init = Vec3 0 0 0 \<and>
   rotation_accumulator camera_init = Vec3 0 0 0 \<and>
   minPitch camera_init = 0 \<and> maxPitch camera_init = 0 \<and>
   minYaw camera_init = 0 \<and> maxYaw camera_init = 0 \<and>
   minRoll camera_init = 0 \<and> maxRoll camera_init = 0 \<and>
   mode camera_init = CAMERA_MODE_FREE"
  by (simp add: camera_init_def cm_simps)

lemma run_commands_fields:
  "orientation (run_commands cam cs) = orientation cam \<and>
   target_position (run_commands cam cs) = target_position cam \<and>
   target_distance (run_commands cam cs) = target_distance cam \<and>
   mode (run_commands cam cs) = mode cam"
proof (induction cs arbitrary: cam)
  case Nil
  show ?case by simp
next
  case (Cons c cs)
  show ?case
    by (cases c) (simp_all add: Cons.IH camera_move_def camera_rotate_def)
qed

text \<open>
  Claim C6. \<open>camera_move\<close> and \<open>camera_rotate\<close> add their argument to the movement and
  the rotation accumulator and change nothing else; after any sequence of such calls
  \<open>camera_forward\<close>, \<open>camera_up\<close>, \<open>camera_right\<close> and \<open>camera_eye\<close> return what they
  returned before.
\<close>

theorem accumulate_deferred:
  "camera_move cam offset =
     cam\<lparr>movement_accumulator := cm_add (movement_accumulator cam) offset\<rparr> \<and>
   camera_rotate cam angles =
     cam\<lparr>rotation_accumulator := cm_add (rotation_accumulator cam) angles\<rparr> \<and>
   camera_forward (run_commands cam cs) = camera_forward cam \<and>
   camera_up (run_commands cam cs) = camera_up cam \<and>
   camera_right (run_commands cam cs) = camera_right cam \<and>
   camera_eye (run_commands cam cs) = camera_eye cam"
  by (simp add: camera_move_def camera_rotate_def camera_forward_def camera_up_def
      camera_right_def camera_eye_def run_commands_fields)

lemma compose_orientation_zero:
  "orientation cam = Quat 0 0 0 0 \<Longrightarrow> compose_orientation cam = Quat 0 0 0 0"
  by (simp add: compose_orientation_def Let_def cm_mulQuat_zero_left cm_mulQuat_zero_right)

text \<open>
  Claim C10. For a camera from \<open>camera_init\<close>, after any sequence of \<open>camera_rotate\<close> and
  \<open>camera_move\<close> calls the products of the first \<open>camera_view_matrix\<close> call give the zero
  quaternion, and the call leaves the identity quaternion as orientation, whatever rotation
  was accumulated.
\<close>

theorem first_resolve_discards_rotation:
  "compose_orientation (clamp_angles (run_commands camera_init cs)) = cm_init_quat 0 0 0 0 \<and>
   orientation (fst (camera_view_matrix (run_commands camera_init cs))) = cm_init_quat 0 0 0 1"
proof -
  let ?cam = "run_commands camera_init cs"
  have "orientation ?cam = Quat 0 0 0 0"
    by (simp add: run_commands_fields camera_init_def cm_init_quat_def)
  then have z: "compose_orientation (clamp_angles ?cam) = Quat 0 0 0 0"
    by (simp add: compose_orientation_zero clamp_angles_orientation)
  then have "orientation (fst (camera_view_matrix ?cam)) = Quat 0 0 0 1"
    by (simp add: camera_view_matrix_orientation cm_normalizeQuat_zero qnorm2_def)
  with z show ?thesis
    by (simp add: cm_init_quat_def)
qed

lemma cm_mulQuat_hamilton: "cm_mulQuat a b = hamilton a b"
  by (simp add: hamilton_def quat_of_def quat_vector_def dot3_def cm_cross_def cm_simps Let_def
      algebra_simps)

lemma cm_fromAxisAngle_axis_angle: "cm_fromAxisAngle axis angle = axis_angle axis angle"
  by (simp add: cm_fromAxisAngle_def axis_angle_def quat_of_def sinf_def cosf_def cm_simps Let_def)

text \<open>
  Claim C2. With the pitch, yaw and roll deltas built by axis-angle over the world right, up
  and forward axes from the rotation accumulator after clamping, the orientation before
  normalization is \<open>yaw * (orientation * pitch)\<close> when \<open>DISABLE_ROLL\<close> is set and
  \<open>((orientation * pitch) * yaw) * roll\<close> when it is not, with \<open>*\<close> the Hamilton product;
  the orientation after the call is the normalization of that quaternion.
\<close>

theorem orientation_composition:
  "(mode cam AND CAMERA_MODE_DISABLE_ROLL \<noteq> 0 \<longrightarrow>
      compose_orientation (clamp_angles cam) =
        hamilton (yaw_delta cam) (hamilton (orientation cam) (pitch_delta cam))) \<and>
   (mode cam AND CAMERA_MODE_DISABLE_ROLL = 0 \<longrightarrow>
      compose_orientation (clamp_angles cam) =
        hamilton (hamilton (hamilton (orientation cam) (pitch_delta cam)) (yaw_delta cam))
          (roll_delta cam)) \<and>
   orientation (fst (camera_view_matrix cam)) =
     cm_normalizeQuat (compose_orientation (clamp_angles cam))"
  by (simp add: compose_orientation_def Let_def clamp_angles_mode clamp_angles_orientation
      cm_mulQuat_hamilton cm_fromAxisAngle_axis_angle pitch_delta_def yaw_delta_def
      roll_delta_def CAMERA_WORLD_RIGHT_def CAMERA_WORLD_UP_def CAMERA_WORLD_FORWARD_def
      camera_view_matrix_orientation)

lemma quarter_pi: "pi / 2 * 0.5 = pi / 4"
  by simp


lemma clamp_angles_free: "mode cam AND (CAMERA_MODE_CLAMP_PITCH_ANGLE OR CAMERA_MODE_CLAMP_YAW_ANGLE
                        OR CAMERA_MODE_CLAMP_ROLL_ANGLE) = 0 \<Longrightarrow> clamp_angles cam = cam"
  by (simp add: clamp_angles_def)

lemma flag_values:
  "CAMERA_MODE_DISABLE_ROLL AND CAMERA_MODE_DISABLE_ROLL \<noteq> 0"
  "CAMERA_MODE_FREE AND CAMERA_MODE_DISABLE_ROLL = 0"
  by (simp_all add: CAMERA_MODE_DISABLE_ROLL_def CAMERA_MODE_FREE_def)

theorem orientation_composition_witness:
  "mode (half_turns CAMERA_MODE_DISABLE_ROLL) AND CAMERA_MODE_DISABLE_ROLL \<noteq> 0 \<and>
   compose_orientation (clamp_angles (half_turns CAMERA_MODE_DISABLE_ROLL)) = Quat 0 0 (- 1) 0 \<and>
   mode (half_turns CAMERA_MODE_FREE) AND CAMERA_MODE_DISABLE_ROLL = 0 \<and>
   compose_orientation (clamp_angles (half_turns CAMERA_MODE_FREE)) = Quat 0 0 1 0"
  using orientation_composition [of "half_turns CAMERA_MODE_DISABLE_ROLL"]
    orientation_composition [of "half_turns CAMERA_MODE_FREE"]
  by (simp add: half_turns_def flag_values clamp_angles_def pitch_delta_def yaw_delta_def
      roll_delta_def axis_angle_def hamilton_def quat_of_def quat_vector_def dot3_def
      cm_cross_def cm_simps CAMERA_MODE_DISABLE_ROLL_def CAMERA_MODE_FREE_def
      CAMERA_MODE_CLAMP_PITCH_ANGLE_def CAMERA_MODE_CLAMP_YAW_ANGLE_def
      CAMERA_MODE_CLAMP_ROLL_ANGLE_def)



lemma clamp_pitch_rot:
  "rotation_accumulator (clamp_pitch an cam) =
     (if mode cam AND CAMERA_MODE_CLAMP_PITCH_ANGLE \<noteq> 0
      then Vec3 (cm_min (maxPitch cam - ex an)
                   (cm_max (minPitch cam - ex an) (vx (rotation_accumulator cam))))
             (vy (rotation_accumulator cam)) (vz (rotation_accumulator cam))
      else rotation_accumulator cam)"
  by (simp add: clamp_pitch_def Let_def set_vx_def)

lemma clamp_yaw_rot:
  "rotation_accumulator (clamp_yaw an cam) =
     (if mode cam AND CAMERA_MODE_CLAMP_YAW_ANGLE \<noteq> 0
      then Vec3 (vx (rotation_accumulator cam))
             (cm_min (maxYaw cam - ey an)
                (cm_max (minYaw cam - ey an) (vy (rotation_accumulator cam))))
             (vz (rotation_accumulator cam))
      else rotation_accumulator cam)"
  by (simp add: clamp_yaw_def Let_def set_vy_def)

lemma clamp_roll_rot:
  "rotation_accumulator (clamp_roll an cam) =
     (if mode cam AND CAMERA_MODE_CLAMP_ROLL_ANGLE \<noteq> 0
      then Vec3 (vx (rotation_accumulator cam)) (vy (rotation_accumulator cam))
             (cm_min_nan (nan_minus (maxRoll cam) (ez an))
                (cm_max_nan (nan_minus (minRoll cam) (ez an)) (vz (rotation_accumulator cam))))
      else rotation_accumulator cam)"
  by (simp add: clamp_roll_def Let_def set_vz_def)

lemma clamp_mask_pitch:
  "(m :: 32 word) AND CAMERA_MODE_CLAMP_PITCH_ANGLE \<noteq> 0 \<Longrightarrow>
   m AND (CAMERA_MODE_CLAMP_PITCH_ANGLE OR CAMERA_MODE_CLAMP_YAW_ANGLE
            OR CAMERA_MODE_CLAMP_ROLL_ANGLE) \<noteq> 0"
  by (metis (no_types, opaque_lifting) bit.conj_disj_distrib or_eq_0_iff)



lemma clamp_yaw_keeps:
  "mode (clamp_yaw an cam) = mode cam" "minRoll (clamp_yaw an cam) = minRoll cam"
  "maxRoll (clamp_yaw an cam) = maxRoll cam"
  by (simp_all add: clamp_yaw_def Let_def)

lemma clamp_pitch_keeps:
  "mode (clamp_pitch an cam) = mode cam" "minRoll (clamp_pitch an cam) = minRoll cam"
  "maxRoll (clamp_pitch an cam) = maxRoll cam" "minYaw (clamp_pitch an cam) = minYaw cam"
  "maxYaw (clamp_pitch an cam) = maxYaw cam"
  by (simp_all add: clamp_pitch_def Let_def)






lemma cm_toEuler_identity: "cm_toEuler (Quat 0 0 0 1) = EulerAngles 0 0 (Some 0)"
  by (simp add: cm_toEuler_def atan2f_def asinf_def)





lemma camera_view_matrix_mode: "mode (fst (camera_view_matrix cam)) = mode cam"
proof -
  obtain r where c1: "clamp_angles cam = cam\<lparr>rotation_accumulator := r\<rparr>"
    using clamp_angles_frame by blast
  show ?thesis
    by (subst camera_view_matrix_def, simp add: Let_def, subst update_target_position_eq)
       (simp add: update_orientation_eq c1)
qed

lemma camera_view_matrix_rot:
  "rotation_accumulator (fst (camera_view_matrix cam)) = Vec3 0 0 0"
  by (subst camera_view_matrix_def, simp add: Let_def, subst update_target_position_eq)
     (simp add: update_orientation_eq)

lemma compose_orientation_no_roll:
  "mode cam AND CAMERA_MODE_DISABLE_ROLL \<noteq> 0 \<Longrightarrow>
   compose_orientation cam =
     cm_mulQuat (cm_fromAxisAngle CAMERA_WORLD_UP (vy (rotation_accumulator cam)))
       (cm_mulQuat (orientation cam)
          (cm_fromAxisAngle CAMERA_WORLD_RIGHT (vx (rotation_accumulator cam))))"
  by (simp add: compose_orientation_def Let_def)

lemma qnorm2_world_axes:
  "qnorm2 (cm_fromAxisAngle CAMERA_WORLD_RIGHT a) = 1"
  "qnorm2 (cm_fromAxisAngle CAMERA_WORLD_UP a) = 1"
  "qnorm2 (cm_fromAxisAngle CAMERA_WORLD_FORWARD a) = 1"
  by (simp_all add: qnorm2_fromAxisAngle CAMERA_WORLD_RIGHT_def CAMERA_WORLD_UP_def
      CAMERA_WORLD_FORWARD_def)

lemma quat_length_unit: "quat_length q = 1 \<longleftrightarrow> qnorm2 q = 1"
  by (simp add: quat_length_def)

text \<open>
  Claim C5. With \<open>DISABLE_ROLL\<close> set, no clamp flag set and an orientation of length one,
  resolving a yaw of \<open>theta\<close> alone and then, in a second call, a pitch of \<open>phi\<close> alone gives
  the same orientation as one call with the rotation accumulator \<open>(phi, theta, 0)\<close>.
\<close>

theorem no_roll_order:
  assumes roll: "mode cam AND CAMERA_MODE_DISABLE_ROLL \<noteq> 0"
    and free: "mode cam AND (CAMERA_MODE_CLAMP_PITCH_ANGLE OR CAMERA_MODE_CLAMP_YAW_ANGLE
                 OR CAMERA_MODE_CLAMP_ROLL_ANGLE) = 0"
    and unit: "quat_length (orientation cam) = 1"
  shows "orientation (fst (camera_view_matrix (camera_rotate
            (fst (camera_view_matrix (cam\<lparr>rotation_accumulator := Vec3 0 theta 0\<rparr>)))
            (Vec3 phi 0 0)))) =
         orientation (fst (camera_view_matrix (cam\<lparr>rotation_accumulator := Vec3 phi theta 0\<rparr>)))"
proof -
  let ?q = "orientation cam"
  let ?yaw = "cm_fromAxisAngle CAMERA_WORLD_UP theta"
  let ?pitch = "cm_fromAxisAngle CAMERA_WORLD_RIGHT phi"
  let ?a = "cam\<lparr>rotation_accumulator := Vec3 0 theta 0\<rparr>"
  let ?first = "fst (camera_view_matrix ?a)"
  let ?b = "camera_rotate ?first (Vec3 phi 0 0)"
  let ?c = "cam\<lparr>rotation_accumulator := Vec3 phi theta 0\<rparr>"
  have q1: "qnorm2 ?q = 1"
    using unit by (simp add: quat_length_unit)
  have "compose_orientation (clamp_angles ?a) = cm_mulQuat ?yaw ?q"
    using roll free
    by (simp add: clamp_angles_free compose_orientation_no_roll cm_fromAxisAngle_zero
        cm_mulQuat_id_right)
  moreover have "qnorm2 (cm_mulQuat ?yaw ?q) = 1"
    by (simp add: qnorm2_mulQuat qnorm2_world_axes q1)
  ultimately have first: "orientation ?first = cm_mulQuat ?yaw ?q"
    by (simp add: camera_view_matrix_orientation cm_normalizeQuat_unit)
  have mb: "mode ?b = mode cam"
    by (simp add: camera_rotate_def camera_view_matrix_mode)
  have rb: "rotation_accumulator ?b = Vec3 phi 0 0"
    by (simp add: camera_rotate_def camera_view_matrix_rot cm_add_def)
  have ob: "orientation ?b = cm_mulQuat ?yaw ?q"
    by (simp add: camera_rotate_def first)
  have "compose_orientation (clamp_angles ?b) = cm_mulQuat (cm_mulQuat ?yaw ?q) ?pitch"
    using roll free
    by (simp add: clamp_angles_free compose_orientation_no_roll mb rb ob cm_fromAxisAngle_zero
        cm_mulQuat_id_left)
  then have two: "orientation (fst (camera_view_matrix ?b)) =
      cm_normalizeQuat (cm_mulQuat (cm_mulQuat ?yaw ?q) ?pitch)"
    by (simp add: camera_view_matrix_orientation)
  have "compose_orientation (clamp_angles ?c) = cm_mulQuat ?yaw (cm_mulQuat ?q ?pitch)"
    using roll free by (simp add: clamp_angles_free compose_orientation_no_roll)
  then have one: "orientation (fst (camera_view_matrix ?c)) =
      cm_normalizeQuat (cm_mulQuat ?yaw (cm_mulQuat ?q ?pitch))"
    by (simp add: camera_view_matrix_orientation)
  show ?thesis
    unfolding two one by (simp only: cm_mulQuat_assoc)
qed

theorem no_roll_order_witness:
  "mode level_no_roll AND CAMERA_MODE_DISABLE_ROLL \<noteq> 0 \<and>
   mode level_no_roll AND (CAMERA_MODE_CLAMP_PITCH_ANGLE OR CAMERA_MODE_CLAMP_YAW_ANGLE
      OR CAMERA_MODE_CLAMP_ROLL_ANGLE) = 0 \<and>
   quat_length (orientation level_no_roll) = 1 \<and>
   orientation (fst (camera_view_matrix (camera_rotate
       (fst (camera_view_matrix (level_no_roll\<lparr>rotation_accumulator := Vec3 0 pi 0\<rparr>)))
       (Vec3 pi 0 0)))) =
   orientation (fst (camera_view_matrix (level_no_roll\<lparr>rotation_accumulator := Vec3 pi pi 0\<rparr>)))"
proof -
  have h1: "mode level_no_roll AND CAMERA_MODE_DISABLE_ROLL \<noteq> 0"
    by (simp add: level_no_roll_def CAMERA_MODE_DISABLE_ROLL_def)
  have h2: "mode level_no_roll AND (CAMERA_MODE_CLAMP_PITCH_ANGLE OR CAMERA_MODE_CLAMP_YAW_ANGLE
      OR CAMERA_MODE_CLAMP_ROLL_ANGLE) = 0"
    by (simp add: level_no_roll_def CAMERA_MODE_DISABLE_ROLL_def CAMERA_MODE_CLAMP_PITCH_ANGLE_def
        CAMERA_MODE_CLAMP_YAW_ANGLE_def CAMERA_MODE_CLAMP_ROLL_ANGLE_def)
  have h3: "quat_length (orientation level_no_roll) = 1"
    by (simp add: level_no_roll_def quat_length_def qnorm2_def)
  from no_roll_order [OF h1 h2 h3, of pi pi] h1 h2 h3 show ?thesis by simp
qed

text \<open>
  The orientation both ways lead to at the example: half a turn about the forward axis.
\<close>

lemma single_call_value:
  "orientation (fst (camera_view_matrix (level_no_roll\<lparr>rotation_accumulator := Vec3 pi pi 0\<rparr>)))
     = Quat 0 0 (- 1) 0"
proof -
  let ?c = "level_no_roll\<lparr>rotation_accumulator := Vec3 pi pi 0\<rparr>"
  have "mode ?c AND (CAMERA_MODE_CLAMP_PITCH_ANGLE OR CAMERA_MODE_CLAMP_YAW_ANGLE
      OR CAMERA_MODE_CLAMP_ROLL_ANGLE) = 0"
    by (simp add: level_no_roll_def CAMERA_MODE_DISABLE_ROLL_def CAMERA_MODE_CLAMP_PITCH_ANGLE_def
        CAMERA_MODE_CLAMP_YAW_ANGLE_def CAMERA_MODE_CLAMP_ROLL_ANGLE_def)
  then have c: "clamp_angles ?c = ?c" by (rule clamp_angles_free)
  have "compose_orientation ?c = Quat 0 0 (- 1) 0"
    by (simp add: compose_orientation_def level_no_roll_def CAMERA_MODE_DISABLE_ROLL_def
        cm_fromAxisAngle_def sinf_def cosf_def cm_simps CAMERA_WORLD_RIGHT_def
        CAMERA_WORLD_UP_def)
  then show ?thesis
    by (simp add: camera_view_matrix_orientation c cm_normalizeQuat_unit qnorm2_def)
qed

lemmas basis_defs = camera_forward_def camera_up_def camera_right_def CAMERA_WORLD_FORWARD_def
  CAMERA_WORLD_UP_def CAMERA_WORLD_RIGHT_def

lemma camera_forward_length:
  "dot3 (camera_forward cam) (camera_forward cam) = qnorm2 (orientation cam) * qnorm2 (orientation cam)"
  by (cases "orientation cam")
     (simp add: basis_defs dot3_def qnorm2_def cm_simps Let_def algebra_simps)

lemma camera_up_length:
  "dot3 (camera_up cam) (camera_up cam) = qnorm2 (orientation cam) * qnorm2 (orientation cam)"
  by (cases "orientation cam")
     (simp add: basis_defs dot3_def qnorm2_def cm_simps Let_def algebra_simps)

lemma camera_basis_row:
  "vy (camera_forward cam) * vy (camera_forward cam) + vy (camera_up cam) * vy (camera_up cam)
     + vy (camera_right cam) * vy (camera_right cam)
   = qnorm2 (orientation cam) * qnorm2 (orientation cam)"
  by (cases "orientation cam")
     (simp add: basis_defs qnorm2_def cm_simps Let_def algebra_simps)

lemma normalize_flat:
  assumes pos: "0 < vx v * vx v + vz v * vz v"
  shows "horizontal_unit (cm_normalizeVec3 (set_vy v 0))"
proof -
  define s where "s = sqrt (vx v * vx v + vz v * vz v)"
  have s2: "s * s = vx v * vx v + vz v * vz v"
    using pos by (simp add: s_def)
  have s0: "s \<noteq> 0"
    using pos s2 by auto
  have n: "cm_normalizeVec3 (set_vy v 0) = Vec3 (vx v * (1 / s)) 0 (vz v * (1 / s))"
    by (simp add: cm_normalizeVec3_def set_vy_def cm_scale_def sqrtf_def s_def)
  have "vx v * (1 / s) * (vx v * (1 / s)) + vz v * (1 / s) * (vz v * (1 / s))
        = (vx v * vx v + vz v * vz v) / (s * s)"
    by (simp add: add_divide_distrib)
  also have "\<dots> = 1"
    using s0 by (simp add: s2 [symmetric])
  finally show ?thesis
    by (simp add: horizontal_unit_def n)
qed

lemma flat_part:
  assumes "vx v * vx v + vy v * vy v + vz v * vz v = 1" and "vy v * vy v < 1"
  shows "0 < vx v * vx v + vz v * vz v"
  using assms by linarith

lemma square_less_one:
  fixes a :: real
  assumes "- 1 < a" and "a < 1"
  shows "a * a < 1"
proof -
  have "\<bar>a\<bar> < 1" using assms by simp
  then have "\<bar>a\<bar> * \<bar>a\<bar> < 1 * 1"
    by (intro mult_strict_mono) simp_all
  then show ?thesis by simp
qed

lemma square_pos:
  fixes a :: real
  assumes "a \<noteq> 0"
  shows "0 < a * a"
  using assms by (auto simp add: zero_less_mult_iff)

lemma epsilon_bounds: "0 < epsilon" "epsilon < 1"
  by (simp_all add: epsilon_def)

lemma movement_basis_forward:
  assumes flag: "mode cam AND CAMERA_MODE_MOVE_IN_WORLDPLANE \<noteq> 0"
    and unit: "qnorm2 (orientation cam) = 1"
  shows "horizontal_unit (fst (movement_basis cam))"
    and "vy (camera_forward cam) < - 1 + epsilon \<Longrightarrow>
         fst (movement_basis cam) = cm_normalizeVec3 (set_vy (camera_up cam) 0)"
proof -
  let ?f = "camera_forward cam" and ?u = "camera_up cam" and ?r = "camera_right cam"
  have lf: "vx ?f * vx ?f + vy ?f * vy ?f + vz ?f * vz ?f = 1"
    using camera_forward_length [of cam] unit by (simp add: dot3_def)
  have lu: "vx ?u * vx ?u + vy ?u * vy ?u + vz ?u * vz ?u = 1"
    using camera_up_length [of cam] unit by (simp add: dot3_def)
  have row: "vy ?f * vy ?f + vy ?u * vy ?u + vy ?r * vy ?r = 1"
    using camera_basis_row [of cam] unit by simp
  have rr: "0 \<le> vy ?r * vy ?r" by simp
  have up_ok: "0 < vx ?u * vx ?u + vz ?u * vz ?u" if "vy ?f \<noteq> 0"
  proof -
    have "0 < vy ?f * vy ?f" using that by (rule square_pos)
    with row rr have "vy ?u * vy ?u < 1" by linarith
    with lu show ?thesis by (rule flat_part)
  qed
  have nu: "vx (cm_negate ?u) * vx (cm_negate ?u) + vz (cm_negate ?u) * vz (cm_negate ?u)
      = vx ?u * vx ?u + vz ?u * vz ?u"
    by (simp add: cm_negate_def)
  show down: "fst (movement_basis cam) = cm_normalizeVec3 (set_vy ?u 0)"
    if "vy ?f < - 1 + epsilon"
    using that flag epsilon_bounds
    by (simp add: movement_basis_def worldplane_fallback_def Let_def)
  show "horizontal_unit (fst (movement_basis cam))"
  proof (cases "vy ?f > 1 - epsilon")
    case True
    then have "vy ?f \<noteq> 0" using epsilon_bounds by simp
    then have "0 < vx (cm_negate ?u) * vx (cm_negate ?u) + vz (cm_negate ?u) * vz (cm_negate ?u)"
      unfolding nu by (rule up_ok)
    then have "horizontal_unit (cm_normalizeVec3 (set_vy (cm_negate ?u) 0))"
      by (rule normalize_flat)
    then show ?thesis using True flag
      by (simp add: movement_basis_def worldplane_fallback_def Let_def)
  next
    case high: False
    show ?thesis
    proof (cases "vy ?f < - 1 + epsilon")
      case True
      then have "vy ?f \<noteq> 0" using epsilon_bounds by simp
      then have "0 < vx ?u * vx ?u + vz ?u * vz ?u" by (rule up_ok)
      then have "horizontal_unit (cm_normalizeVec3 (set_vy ?u 0))"
        by (rule normalize_flat)
      then show ?thesis using True down by simp
    next
      case False
      with high have "- 1 < vy ?f" and "vy ?f < 1"
        using epsilon_bounds by simp_all
      then have "vy ?f * vy ?f < 1" by (rule square_less_one)
      with lf have "0 < vx ?f * vx ?f + vz ?f * vz ?f" by (rule flat_part)
      then have "horizontal_unit (cm_normalizeVec3 (set_vy ?f 0))"
        by (rule normalize_flat)
      then show ?thesis using high False flag
        by (simp add: movement_basis_def worldplane_fallback_def Let_def)
    qed
  qed
qed

lemma update_target_position_forward:
  assumes "movement_accumulator cam = Vec3 1 0 0"
  shows "target_position (update_target_position cam) =
         cm_add (target_position cam) (fst (movement_basis cam))"
  using assms
  by (cases "movement_basis cam")
     (simp add: update_target_position_def Let_def cm_add_def cm_scale_def)

lemma update_target_position_orientation:
  "orientation (update_target_position cam) = orientation cam"
  by (subst update_target_position_eq) simp

lemma resolved_rotation_fields:
  "mode (update_orientation (clamp_angles cam)) = mode cam"
  "movement_accumulator (update_orientation (clamp_angles cam)) = movement_accumulator cam"
  "target_position (update_orientation (clamp_angles cam)) = target_position cam"
  "qnorm2 (orientation (update_orientation (clamp_angles cam))) = 1"
proof -
  obtain r where c1: "clamp_angles cam = cam\<lparr>rotation_accumulator := r\<rparr>"
    using clamp_angles_frame by blast
  show "mode (update_orientation (clamp_angles cam)) = mode cam"
    "movement_accumulator (update_orientation (clamp_angles cam)) = movement_accumulator cam"
    "target_position (update_orientation (clamp_angles cam)) = target_position cam"
    by (simp_all add: update_orientation_eq c1)
  show "qnorm2 (orientation (update_orientation (clamp_angles cam))) = 1"
    by (simp add: update_orientation_eq qnorm2_normalize)
qed

text \<open>
  Claim C7. With \<open>MOVE_IN_WORLDPLANE\<close> set and no movement pending, a move of \<open>(1, 0, 0)\<close>
  followed by \<open>camera_view_matrix\<close> leaves the Y component of \<open>target_position\<close> unchanged
  and moves it in X/Z by a vector of length one, so by a nonzero amount. This holds for
  every orientation; when the resolved camera looks straight down (the Y component of its
  forward direction is below \<open>-1 + epsilon\<close>), the displacement is the normalized horizontal
  part of its up direction.
\<close>

theorem worldplane_forward_move:
  assumes flag: "mode cam AND CAMERA_MODE_MOVE_IN_WORLDPLANE \<noteq> 0"
    and idle: "movement_accumulator cam = Vec3 0 0 0"
  shows "vy (target_position (move_forward_and_resolve cam)) = vy (target_position cam) \<and>
         (vx (target_position (move_forward_and_resolve cam)) \<noteq> vx (target_position cam) \<or>
          vz (target_position (move_forward_and_resolve cam)) \<noteq> vz (target_position cam)) \<and>
         (vx (target_position (move_forward_and_resolve cam)) - vx (target_position cam))\<^sup>2 +
         (vz (target_position (move_forward_and_resolve cam)) - vz (target_position cam))\<^sup>2 = 1 \<and>
         (vy (camera_forward (move_forward_and_resolve cam)) < - 1 + epsilon \<longrightarrow>
            target_position (move_forward_and_resolve cam) =
              cm_add (target_position cam)
                (cm_normalizeVec3 (set_vy (camera_up (move_forward_and_resolve cam)) 0)))"
proof -
  define cam' where "cam' = move_forward_and_resolve cam"
  let ?m = "camera_move cam (Vec3 1 0 0)"
  let ?c2 = "update_orientation (clamp_angles ?m)"
  let ?d = "fst (movement_basis ?c2)"
  have cam': "cam' = update_target_position ?c2"
    by (simp add: cam'_def move_forward_and_resolve_def camera_view_matrix_def Let_def)
  have m2: "mode ?c2 AND CAMERA_MODE_MOVE_IN_WORLDPLANE \<noteq> 0"
    using flag by (simp add: resolved_rotation_fields camera_move_def)
  have a2: "movement_accumulator ?c2 = Vec3 1 0 0"
    using idle by (simp add: resolved_rotation_fields camera_move_def cm_add_def)
  have t2: "target_position ?c2 = target_position cam"
    by (simp add: resolved_rotation_fields camera_move_def)
  have u2: "qnorm2 (orientation ?c2) = 1"
    by (rule resolved_rotation_fields)
  have tp: "target_position cam' = cm_add (target_position cam) ?d"
    using update_target_position_forward [OF a2] by (simp add: cam' t2)
  have o: "orientation cam' = orientation ?c2"
    by (simp add: cam' update_target_position_orientation)
  have hu: "horizontal_unit ?d"
    using m2 u2 by (rule movement_basis_forward)
  then have dy: "vy ?d = 0" and dl: "vx ?d * vx ?d + vz ?d * vz ?d = 1"
    by (simp_all add: horizontal_unit_def)
  have y: "vy (target_position cam') = vy (target_position cam)"
    by (simp add: tp cm_add_def dy)
  have l: "(vx (target_position cam') - vx (target_position cam))\<^sup>2 +
         (vz (target_position cam') - vz (target_position cam))\<^sup>2 = 1"
    using dl by (simp add: tp cm_add_def power2_eq_square)
  have nz: "vx (target_position cam') \<noteq> vx (target_position cam) \<or>
          vz (target_position cam') \<noteq> vz (target_position cam)"
  proof (rule ccontr)
    assume "\<not> ?thesis"
    with l show False by simp
  qed
  have down: "target_position cam' =
      cm_add (target_position cam) (cm_normalizeVec3 (set_vy (camera_up cam') 0))"
    if "vy (camera_forward cam') < - 1 + epsilon"
  proof -
    have f: "camera_forward cam' = camera_forward ?c2" and u: "camera_up cam' = camera_up ?c2"
      by (simp_all add: camera_forward_def camera_up_def o)
    from that have "vy (camera_forward ?c2) < - 1 + epsilon" by (simp add: f)
    with m2 u2 have "?d = cm_normalizeVec3 (set_vy (camera_up ?c2) 0)"
      by (rule movement_basis_forward)
    then show ?thesis by (simp add: tp u)
  qed
  from y nz l down show ?thesis unfolding cam'_def by blast
qed

lemma looking_down_basis:
  "camera_forward looking_down = Vec3 0 (- 1) 0"
  "camera_up looking_down = Vec3 0 0 1"
  by (simp_all add: looking_down_def basis_defs cm_simps Let_def)

lemma looking_down_resolved:
  "orientation (move_forward_and_resolve looking_down) = orientation looking_down"
proof -
  let ?m = "camera_move looking_down (Vec3 1 0 0)"
  have "mode ?m AND (CAMERA_MODE_CLAMP_PITCH_ANGLE OR CAMERA_MODE_CLAMP_YAW_ANGLE
      OR CAMERA_MODE_CLAMP_ROLL_ANGLE) = 0"
    by (simp add: camera_move_def looking_down_def CAMERA_MODE_MOVE_IN_WORLDPLANE_def
        CAMERA_MODE_CLAMP_PITCH_ANGLE_def CAMERA_MODE_CLAMP_YAW_ANGLE_def
        CAMERA_MODE_CLAMP_ROLL_ANGLE_def)
  then have c: "clamp_angles ?m = ?m" by (rule clamp_angles_free)
  have "compose_orientation ?m = orientation looking_down"
    by (simp add: compose_orientation_def camera_move_def looking_down_def camera_init_def
        cm_init_vec3_def cm_fromAxisAngle_zero cm_mulQuat_id_right
        CAMERA_MODE_MOVE_IN_WORLDPLANE_def CAMERA_MODE_DISABLE_ROLL_def)
  moreover have "qnorm2 (orientation looking_down) = 1"
    by (simp add: looking_down_def qnorm2_def)
  ultimately show ?thesis
    by (simp add: move_forward_and_resolve_def camera_view_matrix_orientation c
        cm_normalizeQuat_unit)
qed

theorem worldplane_forward_move_witness:
  "mode looking_down AND CAMERA_MODE_MOVE_IN_WORLDPLANE \<noteq> 0 \<and>
   movement_accumulator looking_down = Vec3 0 0 0 \<and>
   camera_forward looking_down = Vec3 0 (- 1) 0 \<and>
   target_position looking_down = Vec3 0 0 0 \<and>
   vy (camera_forward (move_forward_and_resolve looking_down)) < - 1 + epsilon \<and>
   target_position (move_forward_and_resolve looking_down) = Vec3 0 0 1"
proof -
  have h1: "mode looking_down AND CAMERA_MODE_MOVE_IN_WORLDPLANE \<noteq> 0"
    by (simp add: looking_down_def CAMERA_MODE_MOVE_IN_WORLDPLANE_def)
  have h2: "movement_accumulator looking_down = Vec3 0 0 0"
    and t: "target_position looking_down = Vec3 0 0 0"
    by (simp_all add: looking_down_def camera_init_def cm_init_vec3_def)
  have f: "camera_forward (move_forward_and_resolve looking_down) = Vec3 0 (- 1) 0"
    and u: "camera_up (move_forward_and_resolve looking_down) = Vec3 0 0 1"
    using looking_down_basis
    by (simp_all add: camera_forward_def camera_up_def looking_down_resolved)
  have d: "vy (camera_forward (move_forward_and_resolve looking_down)) < - 1 + epsilon"
    by (simp add: f epsilon_def)
  have n: "cm_normalizeVec3 (set_vy (Vec3 0 0 1) 0) = Vec3 0 0 1"
    by (simp add: cm_normalizeVec3_def set_vy_def sqrtf_def cm_scale_def)
  from worldplane_forward_move [OF h1 h2] d
  have "target_position (move_forward_and_resolve looking_down) = Vec3 0 0 1"
    by (simp add: u n t cm_add_def)
  with h1 h2 t d looking_down_basis show ?thesis by simp
qed

text \<open>
  The boundary scenario of the specification on a level camera: a pitch of 5 radians is cut
  to a quarter turn, and the Euler pitch of the orientation after the call is the bound.
\<close>

lemma pitch_limited_boundary:
  "vx (rotation_accumulator (clamp_angles pitch_limited)) = pi / 2 \<and>
   ex (cm_toEuler (orientation (fst (camera_view_matrix pitch_limited)))) = maxPitch pitch_limited"
proof -
  have f: "mode pitch_limited AND CAMERA_MODE_CLAMP_PITCH_ANGLE \<noteq> 0"
    "mode pitch_limited AND CAMERA_MODE_CLAMP_YAW_ANGLE = 0"
    "mode pitch_limited AND CAMERA_MODE_CLAMP_ROLL_ANGLE = 0"
    "mode pitch_limited AND CAMERA_MODE_DISABLE_ROLL = 0"
    by (simp_all add: pitch_limited_def CAMERA_MODE_CLAMP_PITCH_ANGLE_def
        CAMERA_MODE_CLAMP_YAW_ANGLE_def CAMERA_MODE_CLAMP_ROLL_ANGLE_def
        CAMERA_MODE_DISABLE_ROLL_def)
  have "0 < pi" by simp
  then have p: "pi / 2 < (5 :: real)" "\<not> (5 :: real) < - (pi / 2)"
    using pi_less_4 by linarith+
  have r: "rotation_accumulator (clamp_angles pitch_limited) = Vec3 (pi / 2) 0 0"
    using p f
    by (simp add: clamp_angles_def clamp_mask_pitch Let_def clamp_roll_rot clamp_yaw_rot
        clamp_pitch_rot clamp_yaw_keeps clamp_pitch_keeps)
       (simp add: pitch_limited_def cm_toEuler_identity cm_min_def cm_max_def)
  have c: "compose_orientation (clamp_angles pitch_limited) =
      Quat (sqrt 2 / 2) 0 0 (sqrt 2 / 2)"
    using f
    by (simp add: compose_orientation_def Let_def clamp_angles_mode clamp_angles_orientation r
        cm_fromAxisAngle_zero cm_mulQuat_id_right)
       (simp add: pitch_limited_def cm_fromAxisAngle_def sinf_def cosf_def cm_simps
        CAMERA_WORLD_RIGHT_def quarter_pi sin_45 cos_45)
  have o: "orientation (fst (camera_view_matrix pitch_limited)) =
      Quat (sqrt 2 / 2) 0 0 (sqrt 2 / 2)"
    by (simp add: camera_view_matrix_orientation c cm_normalizeQuat_unit qnorm2_def)
  have "ex (cm_toEuler (Quat (sqrt 2 / 2) 0 0 (sqrt 2 / 2))) = pi / 2"
    by (simp add: cm_toEuler_def atan2f_def)
  then show ?thesis
    by (simp add: r o) (simp add: pitch_limited_def)
qed

section \<open>Properties of the normalization in the range of float\<close>

lemma round_even_int: "round_even (of_int k) = k"
  by (simp add: round_even_def)

lemma round_even_err: "\<bar>of_int (round_even t) - t\<bar> \<le> 1 / 2"
proof -
  have "of_int \<lfloor>t\<rfloor> \<le> t" and "t < of_int \<lfloor>t\<rfloor> + 1"
    by linarith+
  then show ?thesis
    by (auto simp add: round_even_def Let_def abs_le_iff)
qed

lemma round_even_nonneg: "0 \<le> t \<Longrightarrow> 0 \<le> round_even t"
  by (auto simp add: round_even_def Let_def)

lemma grid_err:
  fixes m :: real
  assumes m: "0 < m"
  shows "\<bar>of_int (round_even (r * m)) / m - r\<bar> \<le> 1 / (2 * m)"
proof -
  let ?k = "of_int (round_even (r * m)) :: real"
  have "?k / m - r = (?k - r * m) / m"
    using m by (simp add: diff_divide_distrib)
  then have "\<bar>?k / m - r\<bar> = \<bar>?k - r * m\<bar> / m"
    using m by (simp add: abs_divide)
  also have "\<dots> \<le> (1 / 2) / m"
    using m round_even_err [of "r * m"] by (intro divide_right_mono) simp_all
  finally show ?thesis by simp
qed

lemma subnormal_err: "\<bar>subnormal r - r\<bar> \<le> 1 / 2 ^ 150"
proof -
  have "\<bar>of_int (round_even (r * 2 ^ 149)) / 2 ^ 149 - r\<bar> \<le> 1 / (2 * 2 ^ 149)"
    by (rule grid_err) simp
  then show ?thesis by (simp add: subnormal_def)
qed

lemma subnormal_grid: "subnormal (of_int k / 2 ^ 149) = of_int k / 2 ^ 149"
  by (simp add: subnormal_def round_even_int)

lemma subnormal_zero: "subnormal 0 = 0"
  by (simp add: subnormal_def round_even_def)

lemma fl_zero: "fl 0 = Fin 0"
  by (simp add: fl_def FLT_MAX_def FLT_MIN_def subnormal_zero)

lemma fl_normal: "FLT_MIN \<le> \<bar>r\<bar> \<Longrightarrow> \<bar>r\<bar> \<le> FLT_MAX \<Longrightarrow> fl r = Fin r"
  by (simp add: fl_def FLT_MAX_def)

lemma FLT_bounds:
  "FLT_MIN = 1 / 2 ^ 126" "0 < FLT_MIN" "FLT_MIN < FLT_MAX" "2 ^ 127 \<le> FLT_MAX"
  "FLT_MAX < 2 ^ 128 - 2 ^ 103" "1 / 2 ^ 149 \<le> FLT_MIN"
  by (simp_all add: FLT_MIN_def FLT_MAX_def)

lemma sq_safe: "in_safe_range c \<Longrightarrow> fl (c * c) = Fin (c * c)"
proof (cases "c = 0")
  case True
  then show ?thesis by (simp add: fl_zero)
next
  case False
  assume "in_safe_range c"
  with False have lo: "1 / 2 ^ 63 \<le> \<bar>c\<bar>" and hi: "\<bar>c\<bar> \<le> 2 ^ 62"
    by (simp_all add: in_safe_range_def)
  have "(1 / 2 ^ 63) * (1 / 2 ^ 63) \<le> \<bar>c\<bar> * \<bar>c\<bar>"
    using lo by (intro mult_mono) simp_all
  then have a: "FLT_MIN \<le> \<bar>c * c\<bar>"
    by (simp add: FLT_MIN_def abs_mult)
  have "\<bar>c\<bar> * \<bar>c\<bar> \<le> 2 ^ 62 * 2 ^ 62"
    using hi by (intro mult_mono) simp_all
  then have b: "\<bar>c * c\<bar> \<le> FLT_MAX"
    by (simp add: FLT_MAX_def abs_mult)
  from a b show ?thesis by (rule fl_normal)
qed

lemma sq_safe_cases:
  "in_safe_range c \<Longrightarrow> (c * c = 0 \<or> FLT_MIN \<le> c * c) \<and> c * c \<le> 2 ^ 124"
proof (cases "c = 0")
  case True
  then show ?thesis by simp
next
  case False
  assume "in_safe_range c"
  with False have lo: "1 / 2 ^ 63 \<le> \<bar>c\<bar>" and hi: "\<bar>c\<bar> \<le> 2 ^ 62"
    by (simp_all add: in_safe_range_def)
  have "(1 / 2 ^ 63) * (1 / 2 ^ 63) \<le> \<bar>c\<bar> * \<bar>c\<bar>"
    using lo by (intro mult_mono) simp_all
  then have a: "FLT_MIN \<le> c * c"
    by (simp add: FLT_MIN_def)
  have "\<bar>c\<bar> * \<bar>c\<bar> \<le> 2 ^ 62 * 2 ^ 62"
    using hi by (intro mult_mono) simp_all
  then have b: "c * c \<le> 2 ^ 124"
    by simp
  from a b show ?thesis by simp
qed

lemma fl_sum_safe:
  assumes s: "s = 0 \<or> FLT_MIN \<le> s" and t: "t = 0 \<or> FLT_MIN \<le> t"
    and le: "s + t \<le> 2 ^ 127"
  shows "fl (s + t) = Fin (s + t)" and "s + t = 0 \<or> FLT_MIN \<le> s + t"
proof -
  have pos: "0 < FLT_MIN" by (rule FLT_bounds)
  show c: "s + t = 0 \<or> FLT_MIN \<le> s + t"
    using s t pos by auto
  show "fl (s + t) = Fin (s + t)"
  proof (cases "s + t = 0")
    case True
    then show ?thesis by (simp add: fl_zero)
  next
    case False
    with c have "FLT_MIN \<le> s + t" by simp
    moreover from this pos have "\<bar>s + t\<bar> = s + t" by simp
    moreover have "s + t \<le> FLT_MAX" using le FLT_bounds(4) by linarith
    ultimately show ?thesis by (simp add: fl_normal)
  qed
qed

lemma fnorm2_safe:
  assumes "safe_quat a"
  shows "fnorm2 a = Fin (qnorm2 a)" and "FLT_MIN \<le> qnorm2 a" and "qnorm2 a \<le> 2 ^ 126"
proof -
  let ?x = "qx a * qx a" and ?y = "qy a * qy a" and ?z = "qz a * qz a" and ?w = "qw a * qw a"
  from assms have sx: "in_safe_range (qx a)" and sy: "in_safe_range (qy a)"
    and sz: "in_safe_range (qz a)" and sw: "in_safe_range (qw a)" and pos: "0 < qnorm2 a"
    by (simp_all add: safe_quat_def)
  note cx = sq_safe_cases [OF sx] and cy = sq_safe_cases [OF sy]
    and cz = sq_safe_cases [OF sz] and cw = sq_safe_cases [OF sw]
  note dx = cx [THEN conjunct1] and dy = cy [THEN conjunct1]
    and dz = cz [THEN conjunct1] and dw = cw [THEN conjunct1]
  note ux = cx [THEN conjunct2] and uy = cy [THEN conjunct2]
    and uz = cz [THEN conjunct2] and uw = cw [THEN conjunct2]
  have b1: "?x + ?y \<le> 2 ^ 127" using ux uy by simp
  have f1: "fl (?x + ?y) = Fin (?x + ?y)"
    by (rule fl_sum_safe(1) [OF dx dy b1])
  have c1: "?x + ?y = 0 \<or> FLT_MIN \<le> ?x + ?y"
    by (rule fl_sum_safe(2) [OF dx dy b1])
  have b2: "?x + ?y + ?z \<le> 2 ^ 127" using ux uy uz by simp
  have f2: "fl (?x + ?y + ?z) = Fin (?x + ?y + ?z)"
    by (rule fl_sum_safe(1) [OF c1 dz b2])
  have c2: "?x + ?y + ?z = 0 \<or> FLT_MIN \<le> ?x + ?y + ?z"
    by (rule fl_sum_safe(2) [OF c1 dz b2])
  have b3: "?x + ?y + ?z + ?w \<le> 2 ^ 127" using ux uy uz uw by simp
  have f3: "fl (?x + ?y + ?z + ?w) = Fin (?x + ?y + ?z + ?w)"
    by (rule fl_sum_safe(1) [OF c2 dw b3])
  have c3: "?x + ?y + ?z + ?w = 0 \<or> FLT_MIN \<le> ?x + ?y + ?z + ?w"
    by (rule fl_sum_safe(2) [OF c2 dw b3])
  show "fnorm2 a = Fin (qnorm2 a)"
    by (simp add: fnorm2_def qnorm2_def sq_safe sx sy sz sw f1 f2 f3)
  show "FLT_MIN \<le> qnorm2 a"
    using c3 pos by (simp add: qnorm2_def)
  show "qnorm2 a \<le> 2 ^ 126"
    unfolding qnorm2_def using ux uy uz uw by simp
qed

lemma powr_minus_half: "0 < n \<Longrightarrow> n powr (- 0.5) = 1 / sqrt n"
proof -
  assume n: "0 < n"
  have e: "(- 0.5 :: real) = - (1 / 2)" by simp
  have "n powr (- (1 / 2)) = inverse (n powr (1 / 2))"
    by (rule powr_minus)
  also have "n powr (1 / 2) = sqrt n"
    using n by (simp only: powr_half_sqrt less_imp_le)
  finally show ?thesis
    unfolding e by (simp only: inverse_eq_divide)
qed

lemma inv_le:
  fixes a b :: real
  shows "0 < a \<Longrightarrow> a \<le> b \<Longrightarrow> 1 / b \<le> 1 / a"
  by (rule frac_le) simp_all

lemma cm_normalizeQuat_f32_norm:
  "cm_normalizeQuat_f32 a =
     (if fless (Fin 0) (fnorm2 a)
      then QuatF (fmul (Fin (qx a)) (powf_minus_half (fnorm2 a)))
             (fmul (Fin (qy a)) (powf_minus_half (fnorm2 a)))
             (fmul (Fin (qz a)) (powf_minus_half (fnorm2 a)))
             (fmul (Fin (qw a)) (powf_minus_half (fnorm2 a)))
      else fin_quat (Quat 0 0 0 1))"
  by (simp add: cm_normalizeQuat_f32_def fnorm2_def Let_def cm_init_quat_def)

lemma inv_sqrt_safe:
  assumes lo: "FLT_MIN \<le> n" and hi: "n \<le> 2 ^ 126"
  shows "1 / 2 ^ 63 \<le> 1 / sqrt n" and "1 / sqrt n \<le> 2 ^ 63" and "0 < sqrt n"
proof -
  have pos: "0 < n" using lo FLT_bounds(2) by linarith
  then show s0: "0 < sqrt n" by simp
  have "sqrt n \<le> 2 ^ 63"
    using hi by (intro real_le_lsqrt) simp_all
  with s0 show "1 / 2 ^ 63 \<le> 1 / sqrt n"
    by (rule inv_le)
  have "(1 / 2 ^ 63)\<^sup>2 \<le> n"
    using lo by (simp add: FLT_MIN_def power2_eq_square)
  then have "1 / 2 ^ 63 \<le> sqrt n"
    by (rule real_le_rsqrt)
  then have "1 / sqrt n \<le> 1 / (1 / 2 ^ 63)"
    by (intro inv_le) simp_all
  then show "1 / sqrt n \<le> 2 ^ 63" by simp
qed

lemma scaled_safe:
  assumes c: "in_safe_range c" and lo: "1 / 2 ^ 63 \<le> v" and hi: "v \<le> 2 ^ 63"
  shows "fl (c * v) = Fin (c * v)"
proof (cases "c = 0")
  case True
  then show ?thesis by (simp add: fl_zero)
next
  case False
  with c have cl: "1 / 2 ^ 63 \<le> \<bar>c\<bar>" and ch: "\<bar>c\<bar> \<le> 2 ^ 62"
    by (simp_all add: in_safe_range_def)
  have v0: "0 \<le> v" using lo by (rule order_trans [rotated]) simp
  have "(1 / 2 ^ 63) * (1 / 2 ^ 63) \<le> \<bar>c\<bar> * v"
    using cl lo by (intro mult_mono) simp_all
  then have a: "FLT_MIN \<le> \<bar>c * v\<bar>"
    using v0 by (simp add: FLT_MIN_def abs_mult)
  have "\<bar>c\<bar> * v \<le> 2 ^ 62 * 2 ^ 63"
    using ch hi v0 by (intro mult_mono) simp_all
  then have b: "\<bar>c * v\<bar> \<le> FLT_MAX"
    using v0 by (simp add: FLT_MAX_def abs_mult)
  from a b show ?thesis by (rule fl_normal)
qed

lemma cm_normalizeQuat_f32_safe:
  assumes safe: "safe_quat a"
  shows "cm_normalizeQuat_f32 a = fin_quat (quat_scale a (1 / quat_length a))"
    and "quat_length a \<noteq> 0"
proof -
  let ?n = "qnorm2 a" and ?v = "1 / sqrt (qnorm2 a)"
  note n = fnorm2_safe [OF safe]
  note v = inv_sqrt_safe [OF n(2) n(3)]
  have pos: "0 < ?n" using n(2) FLT_bounds(2) by linarith
  from safe have sx: "in_safe_range (qx a)" and sy: "in_safe_range (qy a)"
    and sz: "in_safe_range (qz a)" and sw: "in_safe_range (qw a)"
    by (simp_all add: safe_quat_def)
  have "FLT_MIN \<le> \<bar>?v\<bar>" and "\<bar>?v\<bar> \<le> FLT_MAX"
    using v(1) v(2) v(3) by (simp_all add: FLT_MIN_def FLT_MAX_def)
  then have "fl ?v = Fin ?v" by (rule fl_normal)
  moreover have "?n powr (- 0.5) = ?v"
    using pos by (rule powr_minus_half)
  ultimately have p: "powf_minus_half (Fin ?n) = Fin ?v"
    using pos by (simp only: powf_minus_half.simps if_True)
  show "quat_length a \<noteq> 0"
    using v(3) by (simp add: quat_length_def)
  have "fless (Fin 0) (Fin ?n)" using pos by simp
  then have "cm_normalizeQuat_f32 a =
      QuatF (fmul (Fin (qx a)) (Fin ?v)) (fmul (Fin (qy a)) (Fin ?v))
        (fmul (Fin (qz a)) (Fin ?v)) (fmul (Fin (qw a)) (Fin ?v))"
    unfolding cm_normalizeQuat_f32_norm n(1) p by (simp only: if_True)
  also have "\<dots> = QuatF (Fin (qx a * ?v)) (Fin (qy a * ?v)) (Fin (qz a * ?v)) (Fin (qw a * ?v))"
    by (simp only: fmul.simps scaled_safe [OF sx v(1) v(2)] scaled_safe [OF sy v(1) v(2)]
        scaled_safe [OF sz v(1) v(2)] scaled_safe [OF sw v(1) v(2)])
  also have "\<dots> = fin_quat (quat_scale a (1 / quat_length a))"
    by (simp add: fin_quat_def quat_scale_def quat_length_def)
  finally show "cm_normalizeQuat_f32 a = fin_quat (quat_scale a (1 / quat_length a))" .
qed

lemma cm_normalizeQuat_f32_overflow:
  "fnorm2 a = PInf \<Longrightarrow> cm_normalizeQuat_f32 a = fin_quat (Quat 0 0 0 0)"
  by (simp add: cm_normalizeQuat_f32_norm fin_quat_def fl_zero)

lemma cm_normalizeQuat_f32_zero:
  "fnorm2 a = Fin n \<Longrightarrow> n \<le> 0 \<Longrightarrow> cm_normalizeQuat_f32 a = fin_quat (Quat 0 0 0 1)"
  by (simp add: cm_normalizeQuat_f32_norm)







lemma fnorm2_zero: "fnorm2 (Quat 0 0 0 0) = Fin 0"
  by (simp add: fnorm2_def fl_zero)

lemma fl_overflow: "2 ^ 128 - 2 ^ 103 \<le> r \<Longrightarrow> fl r = PInf"
  by (simp add: fl_def)

lemma fnorm2_huge: "fnorm2 (Quat (10 ^ 20) 0 0 0) = PInf"
proof -
  have "fl (10 ^ 20 * 10 ^ 20) = PInf"
    by (rule fl_overflow) simp
  then show ?thesis
    by (simp add: fnorm2_def fl_zero del: power_mult_distrib)
qed






text \<open>
  In the safe range the function on floats with a range and the function in exact
  arithmetic agree.
\<close>

lemma cm_normalizeQuat_f32_agrees:
  "safe_quat a \<Longrightarrow> cm_normalizeQuat_f32 a = fin_quat (cm_normalizeQuat a)"
proof -
  assume s: "safe_quat a"
  then have "0 < qnorm2 a" by (simp add: safe_quat_def)
  then have "cm_normalizeQuat a = quat_scale a (1 / quat_length a)"
    by (simp add: cm_normalizeQuat_pos quat_length_def)
  with cm_normalizeQuat_f32_safe(1) [OF s] show ?thesis by simp
qed

text \<open>
  A quaternion that is not zero and whose squared norm underflows to zero: the result is
  the identity.
\<close>

lemma underflow_example:
  "cm_normalizeQuat_f32 (Quat (1 / 10 ^ 30) 0 0 0) = fin_quat (Quat 0 0 0 1)"
proof -
  have "round_even (1 / 10 ^ 30 * (1 / 10 ^ 30) * 2 ^ 149) = 0"
    by (simp add: round_even_def Let_def)
  then have "fl (1 / 10 ^ 30 * (1 / 10 ^ 30)) = Fin 0"
    by (simp add: fl_def subnormal_def FLT_MAX_def FLT_MIN_def)
  then have "fnorm2 (Quat (1 / 10 ^ 30) 0 0 0) = Fin 0"
    by (simp add: fnorm2_def fl_zero)
  then show ?thesis by (rule cm_normalizeQuat_f32_zero) simp
qed

lemma fl_square:
  assumes le: "c * c \<le> 2 ^ 126"
  shows "\<exists>s. fl (c * c) = Fin s \<and> \<bar>s - c * c\<bar> \<le> 1 / 2 ^ 150 \<and> 0 \<le> s \<and>
             (s < FLT_MIN \<longrightarrow> (\<exists>k. s = of_int k / 2 ^ 149))"
proof -
  let ?r = "c * c"
  have r0: "0 \<le> ?r" by simp
  have top: "\<not> 2 ^ 128 - 2 ^ 103 \<le> \<bar>?r\<bar>" "\<not> FLT_MAX < \<bar>?r\<bar>"
    using le by (simp_all add: FLT_MAX_def)
  show ?thesis
  proof (cases "?r < FLT_MIN")
    case True
    then have f: "fl ?r = Fin (subnormal ?r)"
      using top by (simp add: fl_def)
    have "0 \<le> round_even (?r * 2 ^ 149)"
      by (intro round_even_nonneg) simp
    then have "0 \<le> subnormal ?r" by (simp add: subnormal_def)
    moreover have "\<exists>k. subnormal ?r = of_int k / 2 ^ 149"
      unfolding subnormal_def by blast
    ultimately show ?thesis using f subnormal_err [of ?r] by blast
  next
    case False
    then have "fl ?r = Fin ?r"
      using top by (simp add: fl_def)
    with False r0 show ?thesis by auto
  qed
qed

lemma fl_add_gridded:
  assumes s: "0 \<le> s" "s < FLT_MIN \<longrightarrow> (\<exists>k. s = of_int k / 2 ^ 149)"
    and t: "0 \<le> t" "t < FLT_MIN \<longrightarrow> (\<exists>k. t = of_int k / 2 ^ 149)"
    and le: "s + t \<le> 2 ^ 127"
  shows "fl (s + t) = Fin (s + t)"
    and "s + t < FLT_MIN \<longrightarrow> (\<exists>k. s + t = of_int k / 2 ^ 149)"
proof -
  have top: "\<not> 2 ^ 128 - 2 ^ 103 \<le> \<bar>s + t\<bar>" "\<not> FLT_MAX < \<bar>s + t\<bar>"
    using le s(1) t(1) by (simp_all add: FLT_MAX_def)
  have grid: "\<exists>k. s + t = of_int k / 2 ^ 149" if "s + t < FLT_MIN"
  proof -
    from that s(1) t(1) have "s < FLT_MIN" "t < FLT_MIN" by linarith+
    with s(2) t(2) obtain k j where "s = of_int k / 2 ^ 149" "t = of_int j / 2 ^ 149"
      by blast
    then have "s + t = of_int (k + j) / 2 ^ 149"
      by (simp add: add_divide_distrib)
    then show ?thesis ..
  qed
  then show "s + t < FLT_MIN \<longrightarrow> (\<exists>k. s + t = of_int k / 2 ^ 149)" by blast
  show "fl (s + t) = Fin (s + t)"
  proof (cases "s + t < FLT_MIN")
    case True
    with grid obtain k where k: "s + t = of_int k / 2 ^ 149" by blast
    have "subnormal (s + t) = s + t"
      unfolding k by (rule subnormal_grid)
    with True top s(1) t(1) show ?thesis by (simp add: fl_def)
  next
    case False
    with top s(1) t(1) show ?thesis by (simp add: fl_def)
  qed
qed

lemma fl_err:
  assumes "\<bar>r\<bar> \<le> FLT_MAX"
  shows "\<exists>v. fl r = Fin v \<and> \<bar>v - r\<bar> \<le> 1 / 2 ^ 150"
proof (cases "\<bar>r\<bar> < FLT_MIN")
  case True
  with assms have "fl r = Fin (subnormal r)"
    using FLT_bounds(5) by (simp add: fl_def)
  with subnormal_err [of r] show ?thesis by blast
next
  case False
  with assms have "fl r = Fin r"
    using FLT_bounds(5) by (simp add: fl_def)
  then show ?thesis by simp
qed

lemma sqrt_near_one:
  assumes "0 \<le> l"
  shows "\<bar>sqrt l - 1\<bar> \<le> \<bar>l - 1\<bar>"
proof -
  have s: "0 \<le> sqrt l" using assms by simp
  have "l - 1 = (sqrt l - 1) * (sqrt l + 1)"
    using assms by (simp add: algebra_simps)
  then have "\<bar>l - 1\<bar> = \<bar>sqrt l - 1\<bar> * (sqrt l + 1)"
    using s by (simp add: abs_mult)
  moreover have "\<bar>sqrt l - 1\<bar> * 1 \<le> \<bar>sqrt l - 1\<bar> * (sqrt l + 1)"
    using s by (intro mult_left_mono) simp_all
  ultimately show ?thesis by simp
qed

lemma square_err:
  fixes v u e :: real
  assumes d: "\<bar>v - u\<bar> \<le> e" and u: "\<bar>u\<bar> \<le> 2" and e: "e \<le> 1"
  shows "\<bar>v * v - u * u\<bar> \<le> 5 * e"
proof -
  have e0: "0 \<le> e" using d by linarith
  have "\<bar>v + u\<bar> \<le> \<bar>v - u\<bar> + 2 * \<bar>u\<bar>" by linarith
  with d u e have b: "\<bar>v + u\<bar> \<le> 5" by linarith
  have "v * v - u * u = (v - u) * (v + u)" by (simp add: algebra_simps)
  then have "\<bar>v * v - u * u\<bar> = \<bar>v - u\<bar> * \<bar>v + u\<bar>" by (simp add: abs_mult)
  also have "\<dots> \<le> e * 5"
    using d b e0 by (intro mult_mono) simp_all
  finally show ?thesis by simp
qed

lemma abs_le_of_square:
  fixes c b :: real
  assumes "c * c \<le> b * b" and "0 \<le> b"
  shows "\<bar>c\<bar> \<le> b"
proof -
  have "\<bar>c\<bar>\<^sup>2 \<le> b\<^sup>2" using assms(1) by (simp add: power2_eq_square)
  then show ?thesis using assms(2) by (rule power2_le_imp_le)
qed

text \<open>
  In the range of the claim the result of the normalization is finite and of unit length
  within the tolerance: the squares and the scaled components are at most \<open>2\<^sup>-\<^sup>1\<^sup>5\<^sup>0\<close> off
  their exact values.
\<close>

lemma normalize_tolerance:
  assumes lo: "1 / 2 ^ 100 \<le> qnorm2 a" and hi: "qnorm2 a \<le> 2 ^ 126"
  shows "\<exists>q. cm_normalizeQuat_f32 a = fin_quat q \<and> \<bar>quat_length q - 1\<bar> \<le> 1 / 10 ^ 5"
proof -
  define E :: real where "E = 1 / 2 ^ 150"
  define P :: real where "P = 1 / 2 ^ 101"
  define D :: real where "D = 4 * E / P"
  define x y z w where "x = qx a" and "y = qy a" and "z = qz a" and "w = qw a"
  define n where "n = x * x + y * y + z * z + w * w"
  have n: "n = qnorm2 a" by (simp add: n_def qnorm2_def x_def y_def z_def w_def)
  have E: "0 < E" "E \<le> 1" by (simp_all add: E_def)
  have P: "0 < P" by (simp add: P_def)
  have D: "0 \<le> D" "D \<le> 1" "20 * E + D \<le> 1 / 10 ^ 5" by (simp_all add: D_def E_def P_def)
  have nlo: "P + 4 * E \<le> n" using lo by (simp add: n P_def E_def)
  have nhi: "n \<le> 2 ^ 126" using hi by (simp add: n)
  have sq0: "0 \<le> x * x" "0 \<le> y * y" "0 \<le> z * z" "0 \<le> w * w" by simp_all
  then have sqn: "x * x \<le> n" "y * y \<le> n" "z * z \<le> n" "w * w \<le> n"
    unfolding n_def by linarith+
  with nhi have sqh: "x * x \<le> 2 ^ 126" "y * y \<le> 2 ^ 126" "z * z \<le> 2 ^ 126" "w * w \<le> 2 ^ 126"
    by linarith+
  obtain s1 where s1: "fl (x * x) = Fin s1" "\<bar>s1 - x * x\<bar> \<le> E" "0 \<le> s1"
      "s1 < FLT_MIN \<longrightarrow> (\<exists>k. s1 = of_int k / 2 ^ 149)"
    using fl_square [OF sqh(1)] unfolding E_def by blast
  obtain s2 where s2: "fl (y * y) = Fin s2" "\<bar>s2 - y * y\<bar> \<le> E" "0 \<le> s2"
      "s2 < FLT_MIN \<longrightarrow> (\<exists>k. s2 = of_int k / 2 ^ 149)"
    using fl_square [OF sqh(2)] unfolding E_def by blast
  obtain s3 where s3: "fl (z * z) = Fin s3" "\<bar>s3 - z * z\<bar> \<le> E" "0 \<le> s3"
      "s3 < FLT_MIN \<longrightarrow> (\<exists>k. s3 = of_int k / 2 ^ 149)"
    using fl_square [OF sqh(3)] unfolding E_def by blast
  obtain s4 where s4: "fl (w * w) = Fin s4" "\<bar>s4 - w * w\<bar> \<le> E" "0 \<le> s4"
      "s4 < FLT_MIN \<longrightarrow> (\<exists>k. s4 = of_int k / 2 ^ 149)"
    using fl_square [OF sqh(4)] unfolding E_def by blast
  have up: "(2 :: real) ^ 126 + 4 \<le> 2 ^ 127" by simp
  have "s1 + s2 \<le> n + 4" using s1(2) s2(2) sq0 E unfolding n_def by linarith
  with nhi up have b1: "s1 + s2 \<le> 2 ^ 127" by linarith
  note a1 = fl_add_gridded [OF s1(3) s1(4) s2(3) s2(4) b1]
  have p1: "0 \<le> s1 + s2" using s1(3) s2(3) by simp
  have "s1 + s2 + s3 \<le> n + 4" using s1(2) s2(2) s3(2) sq0 E unfolding n_def by linarith
  with nhi up have b2: "s1 + s2 + s3 \<le> 2 ^ 127" by linarith
  note a2 = fl_add_gridded [OF p1 a1(2) s3(3) s3(4) b2]
  have p2: "0 \<le> s1 + s2 + s3" using p1 s3(3) by simp
  define N where "N = s1 + s2 + s3 + s4"
  have dN: "\<bar>N - n\<bar> \<le> 4 * E"
    using s1(2) s2(2) s3(2) s4(2) unfolding n_def N_def by linarith
  with nhi up E have b3: "s1 + s2 + s3 + s4 \<le> 2 ^ 127" unfolding N_def by linarith
  note a3 = fl_add_gridded [OF p2 a2(2) s4(3) s4(4) b3]
  have fn: "fnorm2 a = Fin N"
    unfolding fnorm2_def x_def [symmetric] y_def [symmetric] z_def [symmetric] w_def [symmetric]
    by (simp only: fmul.simps fadd.simps s1(1) s2(1) s3(1) s4(1) a1(1) a2(1) a3(1) N_def)
  have Nlo: "P \<le> N" using dN nlo by linarith
  with P have N0: "0 < N" by linarith
  have Nhi: "N \<le> 2 ^ 127" using b3 by (simp add: N_def)
  define v where "v = 1 / sqrt N"
  have r0: "0 < sqrt N" using N0 by simp
  have v0: "0 < v" using r0 by (simp add: v_def)
  have "sqrt N \<le> 2 ^ 64"
    using Nhi by (intro real_le_lsqrt) simp_all
  with r0 have vlo: "1 / 2 ^ 64 \<le> v" unfolding v_def by (rule inv_le)
  have "(1 / 2 ^ 51)\<^sup>2 \<le> N"
    using Nlo by (simp add: P_def power2_eq_square)
  then have "1 / 2 ^ 51 \<le> sqrt N" by (rule real_le_rsqrt)
  then have "1 / sqrt N \<le> 1 / (1 / 2 ^ 51)"
    by (intro inv_le) simp_all
  then have vhi: "v \<le> 2 ^ 51" by (simp add: v_def)
  have "FLT_MIN \<le> \<bar>v\<bar>" and "\<bar>v\<bar> \<le> FLT_MAX"
    using vlo vhi v0 by (simp_all add: FLT_MIN_def FLT_MAX_def)
  then have "fl v = Fin v" by (rule fl_normal)
  moreover have "N powr (- 0.5) = v"
    unfolding v_def using N0 by (rule powr_minus_half)
  ultimately have pw: "powf_minus_half (Fin N) = Fin v"
    using N0 by (simp only: powf_minus_half.simps if_True)
  have vv: "v * v = 1 / N"
    using N0 by (simp add: v_def)
  have comp: "\<exists>r. fl (c * v) = Fin r \<and> \<bar>r - c * v\<bar> \<le> E \<and> \<bar>r * r - c * v * (c * v)\<bar> \<le> 5 * E"
    if c: "c * c \<le> n" for c
  proof -
    have "c * c \<le> 2 ^ 63 * 2 ^ 63" using c nhi by simp
    then have cb: "\<bar>c\<bar> \<le> 2 ^ 63" by (rule abs_le_of_square) simp
    have "\<bar>c\<bar> * v \<le> 2 ^ 63 * 2 ^ 51"
      using cb vhi v0 by (intro mult_mono) simp_all
    then have "\<bar>c * v\<bar> \<le> FLT_MAX"
      using v0 by (simp add: abs_mult FLT_MAX_def)
    then obtain r where r: "fl (c * v) = Fin r" "\<bar>r - c * v\<bar> \<le> E"
      using fl_err unfolding E_def by blast
    have "c * v * (c * v) = c * c * (v * v)" by (simp add: algebra_simps)
    also have "\<dots> = c * c / N" by (simp add: vv)
    also have "\<dots> \<le> n / N" using c N0 by (intro divide_right_mono) simp_all
    also have "n / N \<le> 1 + D"
    proof -
      have "n \<le> N + 4 * E" using dN by linarith
      then have "n / N \<le> (N + 4 * E) / N"
        using N0 by (intro divide_right_mono) simp_all
      also have "\<dots> = 1 + 4 * E / N"
        using N0 by (simp add: add_divide_distrib)
      also have "4 * E / N \<le> 4 * E / P"
        using E P Nlo by (intro frac_le) simp_all
      finally show ?thesis by (simp add: D_def)
    qed
    finally have "c * v * (c * v) \<le> 2 * 2" using D by linarith
    then have "\<bar>c * v\<bar> \<le> 2" by (rule abs_le_of_square) simp
    with r(2) E have "\<bar>r * r - c * v * (c * v)\<bar> \<le> 5 * E"
      by (intro square_err)
    with r show ?thesis by blast
  qed
  obtain o1 where o1: "fl (x * v) = Fin o1" "\<bar>o1 * o1 - x * v * (x * v)\<bar> \<le> 5 * E"
    using comp [OF sqn(1)] by blast
  obtain o2 where o2: "fl (y * v) = Fin o2" "\<bar>o2 * o2 - y * v * (y * v)\<bar> \<le> 5 * E"
    using comp [OF sqn(2)] by blast
  obtain o3 where o3: "fl (z * v) = Fin o3" "\<bar>o3 * o3 - z * v * (z * v)\<bar> \<le> 5 * E"
    using comp [OF sqn(3)] by blast
  obtain o4 where o4: "fl (w * v) = Fin o4" "\<bar>o4 * o4 - w * v * (w * v)\<bar> \<le> 5 * E"
    using comp [OF sqn(4)] by blast
  let ?q = "Quat o1 o2 o3 o4"
  have "fless (Fin 0) (Fin N)" using N0 by simp
  then have "cm_normalizeQuat_f32 a =
      QuatF (fmul (Fin x) (Fin v)) (fmul (Fin y) (Fin v)) (fmul (Fin z) (Fin v))
        (fmul (Fin w) (Fin v))"
    unfolding cm_normalizeQuat_f32_norm fn pw x_def y_def z_def w_def
    by (simp only: if_True)
  then have res: "cm_normalizeQuat_f32 a = fin_quat ?q"
    by (simp add: o1(1) o2(1) o3(1) o4(1) fin_quat_def)
  define R where "R = n / N"
  have "x * v * (x * v) + y * v * (y * v) + z * v * (z * v) + w * v * (w * v) = n * (v * v)"
    by (simp add: n_def algebra_simps)
  then have su: "x * v * (x * v) + y * v * (y * v) + z * v * (z * v) + w * v * (w * v) = R"
    by (simp add: vv R_def)
  have "R - 1 = (n - N) / N"
    using N0 by (simp add: R_def diff_divide_distrib)
  then have "\<bar>R - 1\<bar> = \<bar>n - N\<bar> / N"
    using N0 by (simp add: abs_divide)
  also have "\<dots> \<le> 4 * E / P"
    using dN P Nlo by (intro frac_le) simp_all
  finally have R1: "\<bar>R - 1\<bar> \<le> D" by (simp add: D_def)
  have "\<bar>qnorm2 ?q - R\<bar> \<le> 20 * E"
    using o1(2) o2(2) o3(2) o4(2) unfolding su [symmetric] qnorm2_def CameraQuat.sel
    by linarith
  with R1 D(3) have l1: "\<bar>qnorm2 ?q - 1\<bar> \<le> 1 / 10 ^ 5" by linarith
  have "\<bar>quat_length ?q - 1\<bar> \<le> \<bar>qnorm2 ?q - 1\<bar>"
    unfolding quat_length_def by (rule sqrt_near_one) (rule qnorm2_nonneg)
  with l1 have "\<bar>quat_length ?q - 1\<bar> \<le> 1 / 10 ^ 5" by linarith
  with res show ?thesis by blast
qed

lemma qnorm2_compose: "qnorm2 (compose_orientation cam) = qnorm2 (orientation cam)"
  by (simp add: compose_orientation_def Let_def qnorm2_mulQuat qnorm2_world_axes)

lemma qnorm2_resolved:
  "qnorm2 (compose_orientation (clamp_angles (run_commands cam cs))) = qnorm2 (orientation cam)"
  by (simp add: qnorm2_compose clamp_angles_orientation run_commands_fields)

lemma near_unit_in_range:
  assumes "\<bar>quat_length q - 1\<bar> \<le> 1 / 10 ^ 5"
  shows "1 / 2 ^ 100 \<le> qnorm2 q" and "qnorm2 q \<le> 2 ^ 126"
proof -
  let ?s = "quat_length q"
  have m: "qnorm2 q = ?s * ?s"
    by (simp add: quat_length_def qnorm2_nonneg)
  have t: "(1 :: real) / 10 ^ 5 \<le> 1 / 2" by simp
  from assms t have lo: "1 / 2 \<le> ?s" and hi: "?s \<le> 2" by linarith+
  have "(1 / 2) * (1 / 2) \<le> ?s * ?s"
    using lo by (intro mult_mono) simp_all
  then show "1 / 2 ^ 100 \<le> qnorm2 q" by (simp add: m)
  have "?s * ?s \<le> 2 * 2"
    using lo hi by (intro mult_mono) simp_all
  then show "qnorm2 q \<le> 2 ^ 126" by (simp add: m)
qed

text \<open>
  Claim C4, amended. After \<open>camera_view_matrix\<close>, for every sequence of \<open>camera_rotate\<close> and
  \<open>camera_move\<close> calls before it, the orientation has unit length within \<open>10\<^sup>-\<^sup>5\<close> for every
  starting state whose orientation has a squared norm between \<open>2\<^sup>-\<^sup>1\<^sup>0\<^sup>0\<close> and \<open>2\<^sup>1\<^sup>2\<^sup>6\<close>;
  the squared norm of the result is in that range again, so this holds after every call of
  a run that starts there. In particular it holds for every orientation of length one. A
  zero orientation gives the identity. When the squared norm of the quaternion to be
  normalized overflows, the call leaves \<open>(0, 0, 0, 0)\<close>.
\<close>

theorem orientation_unit_in_range:
  "(1 / 2 ^ 100 \<le> qnorm2 (orientation cam) \<and> qnorm2 (orientation cam) \<le> 2 ^ 126 \<longrightarrow>
      (\<exists>q. resolved_orientation_f32 (run_commands cam cs) = fin_quat q \<and>
           \<bar>quat_length q - 1\<bar> \<le> 1 / 10 ^ 5 \<and>
           1 / 2 ^ 100 \<le> qnorm2 q \<and> qnorm2 q \<le> 2 ^ 126)) \<and>
   (quat_length (orientation cam) = 1 \<longrightarrow>
      (\<exists>q. resolved_orientation_f32 (run_commands cam cs) = fin_quat q \<and>
           \<bar>quat_length q - 1\<bar> \<le> 1 / 10 ^ 5)) \<and>
   (orientation cam = Quat 0 0 0 0 \<longrightarrow>
      resolved_orientation_f32 (run_commands cam cs) = fin_quat (Quat 0 0 0 1)) \<and>
   (fnorm2 (compose_orientation (clamp_angles (run_commands cam cs))) = PInf \<longrightarrow>
      resolved_orientation_f32 (run_commands cam cs) = fin_quat (Quat 0 0 0 0))"
proof -
  let ?c = "compose_orientation (clamp_angles (run_commands cam cs))"
  have range: "\<exists>q. resolved_orientation_f32 (run_commands cam cs) = fin_quat q \<and>
           \<bar>quat_length q - 1\<bar> \<le> 1 / 10 ^ 5 \<and>
           1 / 2 ^ 100 \<le> qnorm2 q \<and> qnorm2 q \<le> 2 ^ 126"
    if "1 / 2 ^ 100 \<le> qnorm2 (orientation cam)" "qnorm2 (orientation cam) \<le> 2 ^ 126"
  proof -
    from that have "1 / 2 ^ 100 \<le> qnorm2 ?c" "qnorm2 ?c \<le> 2 ^ 126"
      by (simp_all only: qnorm2_resolved)
    then obtain q where q: "cm_normalizeQuat_f32 ?c = fin_quat q"
        "\<bar>quat_length q - 1\<bar> \<le> 1 / 10 ^ 5"
      using normalize_tolerance by blast
    with near_unit_in_range [OF q(2)] show ?thesis
      unfolding resolved_orientation_f32_def by blast
  qed
  have unit: "\<exists>q. resolved_orientation_f32 (run_commands cam cs) = fin_quat q \<and>
           \<bar>quat_length q - 1\<bar> \<le> 1 / 10 ^ 5"
    if "quat_length (orientation cam) = 1"
  proof -
    from that have "qnorm2 (orientation cam) = 1" by (simp add: quat_length_unit)
    then have "1 / 2 ^ 100 \<le> qnorm2 (orientation cam)" "qnorm2 (orientation cam) \<le> 2 ^ 126"
      by simp_all
    with range show ?thesis by blast
  qed
  have zero: "resolved_orientation_f32 (run_commands cam cs) = fin_quat (Quat 0 0 0 1)"
    if "orientation cam = Quat 0 0 0 0"
  proof -
    from that have "?c = Quat 0 0 0 0"
      by (simp add: compose_orientation_zero clamp_angles_orientation run_commands_fields)
    then have "fnorm2 ?c = Fin 0" by (simp add: fnorm2_zero)
    then show ?thesis
      unfolding resolved_orientation_f32_def by (rule cm_normalizeQuat_f32_zero) simp
  qed
  have over: "resolved_orientation_f32 (run_commands cam cs) = fin_quat (Quat 0 0 0 0)"
    if "fnorm2 ?c = PInf"
    unfolding resolved_orientation_f32_def using that by (rule cm_normalizeQuat_f32_overflow)
  from range unit zero over show ?thesis by blast
qed

lemma huge_camera_composed:
  "compose_orientation (clamp_angles (run_commands huge_camera [])) = Quat (10 ^ 20) 0 0 0"
proof -
  have "mode huge_camera AND (CAMERA_MODE_CLAMP_PITCH_ANGLE OR CAMERA_MODE_CLAMP_YAW_ANGLE
      OR CAMERA_MODE_CLAMP_ROLL_ANGLE) = 0"
    by (simp add: huge_camera_def camera_init_def CAMERA_MODE_FREE_def)
  then have c: "clamp_angles huge_camera = huge_camera" by (rule clamp_angles_free)
  have h: "compose_orientation huge_camera = orientation huge_camera"
    by (simp add: compose_orientation_def huge_camera_def camera_init_def CAMERA_MODE_FREE_def
        cm_init_vec3_def cm_fromAxisAngle_zero cm_mulQuat_id_right)
  have o: "orientation huge_camera = Quat (10 ^ 20) 0 0 0"
    by (simp add: huge_camera_def)
  show ?thesis by (simp only: run_commands.simps c h o)
qed

text \<open>
  The claim as stated fails for the starting orientation \<open>(10\<^sup>2\<^sup>0, 0, 0, 0)\<close>: with
  nothing pending the call leaves the orientation \<open>(0, 0, 0, 0)\<close>, of length zero.
\<close>

theorem orientation_overflow_counterexample:
  "resolved_orientation_f32 huge_camera = fin_quat (Quat 0 0 0 0) \<and>
   quat_length (Quat 0 0 0 0) = 0 \<and>
   \<not> \<bar>quat_length (Quat 0 0 0 0) - 1\<bar> \<le> 1 / 10 ^ 5"
proof -
  have "fnorm2 (compose_orientation (clamp_angles huge_camera)) = PInf"
    using huge_camera_composed by (simp only: run_commands.simps fnorm2_huge)
  then have "resolved_orientation_f32 huge_camera = fin_quat (Quat 0 0 0 0)"
    unfolding resolved_orientation_f32_def by (rule cm_normalizeQuat_f32_overflow)
  moreover have "quat_length (Quat 0 0 0 0) = 0"
    by (simp add: quat_length_def qnorm2_def)
  ultimately show ?thesis by simp
qed

theorem orientation_unit_in_range_witness:
  "1 / 2 ^ 100 \<le> qnorm2 (orientation level_camera) \<and>
   qnorm2 (orientation level_camera) \<le> 2 ^ 126 \<and>
   quat_length (orientation level_camera) = 1 \<and>
   (\<exists>q. resolved_orientation_f32 (run_commands level_camera [Rotate (Vec3 7 8 9)]) = fin_quat q \<and>
        \<bar>quat_length q - 1\<bar> \<le> 1 / 10 ^ 5 \<and>
        1 / 2 ^ 100 \<le> qnorm2 q \<and> qnorm2 q \<le> 2 ^ 126) \<and>
   orientation camera_init = Quat 0 0 0 0 \<and>
   resolved_orientation_f32 (run_commands camera_init [Rotate (Vec3 7 8 9)])
     = fin_quat (Quat 0 0 0 1) \<and>
   fnorm2 (compose_orientation (clamp_angles (run_commands huge_camera []))) = PInf \<and>
   resolved_orientation_f32 (run_commands huge_camera []) = fin_quat (Quat 0 0 0 0)"
proof -
  have n: "qnorm2 (orientation level_camera) = 1"
    by (simp add: level_camera_def qnorm2_def)
  then have r: "1 / 2 ^ 100 \<le> qnorm2 (orientation level_camera)"
    "qnorm2 (orientation level_camera) \<le> 2 ^ 126"
    by simp_all
  have l: "quat_length (orientation level_camera) = 1"
    using n by (simp add: quat_length_def)
  have z: "orientation camera_init = Quat 0 0 0 0"
    by (simp add: camera_init_def cm_init_quat_def)
  have h: "fnorm2 (compose_orientation (clamp_angles (run_commands huge_camera []))) = PInf"
    by (simp only: huge_camera_composed fnorm2_huge)
  from orientation_unit_in_range [of level_camera "[Rotate (Vec3 7 8 9)]"] r
  have a: "\<exists>q. resolved_orientation_f32 (run_commands level_camera [Rotate (Vec3 7 8 9)])
        = fin_quat q \<and> \<bar>quat_length q - 1\<bar> \<le> 1 / 10 ^ 5 \<and>
        1 / 2 ^ 100 \<le> qnorm2 q \<and> qnorm2 q \<le> 2 ^ 126"
    by blast
  from orientation_unit_in_range [of camera_init "[Rotate (Vec3 7 8 9)]"] z
  have b: "resolved_orientation_f32 (run_commands camera_init [Rotate (Vec3 7 8 9)])
      = fin_quat (Quat 0 0 0 1)"
    by blast
  from orientation_unit_in_range [of huge_camera "[]"] h
  have c: "resolved_orientation_f32 (run_commands huge_camera []) = fin_quat (Quat 0 0 0 0)"
    by blast
  from r l a z b h c show ?thesis by blast
qed

text \<open>
  Where the quaternion to be normalized is in the safe range, the orientation on floats
  with a range is the orientation that \<open>camera_view_matrix\<close> stores in exact arithmetic.
\<close>

lemma resolved_orientation_agrees:
  "safe_quat (compose_orientation (clamp_angles cam)) \<Longrightarrow>
   resolved_orientation_f32 cam = fin_quat (orientation (fst (camera_view_matrix cam)))"
  by (simp add: resolved_orientation_f32_def cm_normalizeQuat_f32_agrees
      camera_view_matrix_orientation)

lemma quat_length_3_4: "quat_length (Quat (3 * k) 0 0 (4 * k)) = 5 * \<bar>k\<bar>"
proof -
  have "qnorm2 (Quat (3 * k) 0 0 (4 * k)) = (5 * k)\<^sup>2"
    by (simp add: qnorm2_def power2_eq_square algebra_simps)
  then have "quat_length (Quat (3 * k) 0 0 (4 * k)) = \<bar>5 * k\<bar>"
    unfolding quat_length_def by (simp only: real_sqrt_abs)
  then show ?thesis by (simp add: abs_mult)
qed

text \<open>
  A quaternion whose squared norm lies among the subnormal numbers: both squares round to
  \<open>2\<^sup>-\<^sup>1\<^sup>4\<^sup>9\<close>, and the result has a length below 0.95.
\<close>

lemma subnormal_example:
  "cm_normalizeQuat_f32 (Quat (3 / 10 ^ 23) 0 0 (4 / 10 ^ 23)) =
     fin_quat (Quat (3 * (2 ^ 74 / 10 ^ 23)) 0 0 (4 * (2 ^ 74 / 10 ^ 23)))"
  "quat_length (Quat (3 * (2 ^ 74 / 10 ^ 23)) 0 0 (4 * (2 ^ 74 / 10 ^ 23))) < 95 / 100"
proof -
  have "round_even (3 / 10 ^ 23 * (3 / 10 ^ 23) * 2 ^ 149) = 1"
    by (simp add: round_even_def Let_def)
  then have x: "fl (3 / 10 ^ 23 * (3 / 10 ^ 23)) = Fin (1 / 2 ^ 149)"
    by (simp add: fl_def subnormal_def FLT_MAX_def FLT_MIN_def)
  have "round_even (4 / 10 ^ 23 * (4 / 10 ^ 23) * 2 ^ 149) = 1"
    by (simp add: round_even_def Let_def)
  then have w: "fl (4 / 10 ^ 23 * (4 / 10 ^ 23)) = Fin (1 / 2 ^ 149)"
    by (simp add: fl_def subnormal_def FLT_MAX_def FLT_MIN_def)
  have g: "fl (1 / 2 ^ 149) = Fin (1 / 2 ^ 149)"
    using subnormal_grid [of 1] by (simp add: fl_def FLT_MAX_def FLT_MIN_def)
  have "subnormal (of_int 2 / 2 ^ 149) = of_int 2 / 2 ^ 149"
    by (rule subnormal_grid)
  then have g2: "fl (1 / 2 ^ 149 + 1 / 2 ^ 149) = Fin (1 / 2 ^ 148)"
    by (simp add: fl_def FLT_MAX_def FLT_MIN_def)
  have n: "fnorm2 (Quat (3 / 10 ^ 23) 0 0 (4 / 10 ^ 23)) = Fin (1 / 2 ^ 148)"
    unfolding fnorm2_def CameraQuat.sel
    by (simp only: fmul.simps fadd.simps x w fl_zero mult_zero_left add_0_right g g2)
  have s: "sqrt (1 / 2 ^ 148) = 1 / 2 ^ 74"
    by (rule real_sqrt_unique) (simp_all add: power2_eq_square)
  have "(1 / 2 ^ 148) powr (- 0.5) = 1 / sqrt (1 / 2 ^ 148)"
    by (rule powr_minus_half) simp
  also have "\<dots> = (2 :: real) ^ 74"
    unfolding s by simp
  finally have "(1 / 2 ^ 148) powr (- 0.5) = (2 :: real) ^ 74" .
  moreover have "fl (2 ^ 74) = Fin (2 ^ 74)"
    by (rule fl_normal) (simp_all add: FLT_MIN_def FLT_MAX_def)
  ultimately have p: "powf_minus_half (Fin (1 / 2 ^ 148)) = Fin (2 ^ 74)"
    by (simp only: powf_minus_half.simps) simp
  have a: "fl (3 / 10 ^ 23 * 2 ^ 74) = Fin (3 / 10 ^ 23 * 2 ^ 74)"
    by (rule fl_normal) (simp_all add: FLT_MIN_def FLT_MAX_def)
  have b: "fl (4 / 10 ^ 23 * 2 ^ 74) = Fin (4 / 10 ^ 23 * 2 ^ 74)"
    by (rule fl_normal) (simp_all add: FLT_MIN_def FLT_MAX_def)
  have "fless (Fin 0) (Fin (1 / 2 ^ 148))" by simp
  then have "cm_normalizeQuat_f32 (Quat (3 / 10 ^ 23) 0 0 (4 / 10 ^ 23)) =
      QuatF (fmul (Fin (3 / 10 ^ 23)) (Fin (2 ^ 74))) (fmul (Fin 0) (Fin (2 ^ 74)))
        (fmul (Fin 0) (Fin (2 ^ 74))) (fmul (Fin (4 / 10 ^ 23)) (Fin (2 ^ 74)))"
    unfolding cm_normalizeQuat_f32_norm n p CameraQuat.sel by (simp only: if_True)
  also have "\<dots> = QuatF (Fin (3 / 10 ^ 23 * 2 ^ 74)) (Fin 0) (Fin 0) (Fin (4 / 10 ^ 23 * 2 ^ 74))"
    by (simp only: fmul.simps a b mult_zero_left fl_zero)
  also have "\<dots> = fin_quat (Quat (3 * (2 ^ 74 / 10 ^ 23)) 0 0 (4 * (2 ^ 74 / 10 ^ 23)))"
    by (simp add: fin_quat_def)
  finally show "cm_normalizeQuat_f32 (Quat (3 / 10 ^ 23) 0 0 (4 / 10 ^ 23)) =
     fin_quat (Quat (3 * (2 ^ 74 / 10 ^ 23)) 0 0 (4 * (2 ^ 74 / 10 ^ 23)))" .
  show "quat_length (Quat (3 * (2 ^ 74 / 10 ^ 23)) 0 0 (4 * (2 ^ 74 / 10 ^ 23))) < 95 / 100"
    unfolding quat_length_3_4 by simp
qed

end
